theory Spec2Isabelle
  imports Complex_Main "HOL-Library.Sublist"
begin

section \<open>Python values, strings and faults\<close>

text \<open>
  The engine reads its thresholds, its pattern lists and its \<open>fail_closed\<close> flag from a
  JSON policy file, and the repository's own test calls \<open>enforce(None)\<close>: the values
  that reach the code are not always of the annotated type. \<open>pyval\<close> is the part of
  Python's value space that JSON and the tests produce. Numbers are rationals: every
  dimension score of the code is an integer-valued float of small magnitude (a baseline
  plus or minus multiples of 3, 4, 5, 15 and 20), on which float addition, subtraction
  and comparison are exact; NaN and the infinities are not modelled.
\<close>

datatype pyval =
    PNone
  | PBool bool
  | PNum rat
  | PStr string
  | PList "pyval list"
  | PDict "(string \<times> pyval) list"

text \<open>Truth value testing, as \<open>if x:\<close> and \<open>x and y\<close> do it.\<close>

fun truthy :: "pyval \<Rightarrow> bool" where
  "truthy PNone = False"
| "truthy (PBool b) = b"
| "truthy (PNum r) = (r \<noteq> 0)"
| "truthy (PStr s) = (s \<noteq> [])"
| "truthy (PList xs) = (xs \<noteq> [])"
| "truthy (PDict kvs) = (kvs \<noteq> [])"

text \<open>
  The exceptions the scoring path can raise, each with the object it was raised on:
  \<open>TypeError\<close> for \<open>pattern in text_lower\<close> with a pattern that is no string and for
  \<open>score < threshold\<close> with a threshold that is no number; \<open>AttributeError\<close> for
  \<open>text.lower()\<close>, \<open>text.strip()\<close> and \<open>context.get(...)\<close> on an object without
  that method. A function that can raise returns \<open>fault + 'a\<close>, \<open>Inl\<close> the exception.
\<close>

datatype fault = TypeError pyval | AttributeError pyval

definition bindE :: "fault + 'a \<Rightarrow> ('a \<Rightarrow> fault + 'b) \<Rightarrow> fault + 'b" where
  "bindE m f = (case m of Inl e \<Rightarrow> Inl e | Inr x \<Rightarrow> f x)"

text \<open>
  An f-string is kept as the list of its pieces: literal text, a float formatted with
  \<open>:.nf\<close>, \<open>str\<close> of a value, \<open>str\<close> of an exception. The rendering of numbers is not
  modelled.
\<close>

datatype frag = Txt string | Fixed nat rat | Str pyval | ExcStr fault

type_synonym fstring = "frag list"

text \<open>
  A \<open>char\<close> is read as a code point below 256, so a \<open>string\<close> is a Python string
  all of whose code points are below 256. On these strings \<open>str.lower\<close> works
  character by character: it maps \<open>A..Z\<close> and the Latin-1 capitals \<open>0xC0..0xDE\<close>
  (without the multiplication sign \<open>0xD7\<close>) 32 places up and leaves every other code
  point of that range alone. \<open>str.isspace\<close> holds of tab to carriage return,
  \<open>0x1C..0x1F\<close>, space, \<open>0x85\<close> and \<open>0xA0\<close>.

  Beyond that range \<open>str.lower\<close> is not a map over the characters: the lowering of a
  capital sigma depends on the characters around it. Where a statement compares the
  lowerings of two different texts, the safety analyzers are therefore modelled over
  lists of arbitrary code points with \<open>unicode_lower\<close> below, and \<open>str_lower\<close> is
  shown to be \<open>unicode_lower\<close> on the strings of this range.
\<close>

definition lower_char :: "char \<Rightarrow> char" where
  "lower_char c =
     (let n = (of_char c :: nat)
      in if (65 \<le> n \<and> n \<le> 90) \<or> (192 \<le> n \<and> n \<le> 222 \<and> n \<noteq> 215)
         then char_of (n + 32) else c)"

definition str_lower :: "string \<Rightarrow> string" where
  "str_lower s = map lower_char s"

definition isspace :: "char \<Rightarrow> bool" where
  "isspace c =
     (let n = (of_char c :: nat)
      in (9 \<le> n \<and> n \<le> 13) \<or> (28 \<le> n \<and> n \<le> 32) \<or> n = 133 \<or> n = 160)"

definition str_strip :: "string \<Rightarrow> string" where
  "str_strip s = rev (dropWhile isspace (rev (dropWhile isspace s)))"

text \<open>
  \<open>str.split()\<close> with no argument: the maximal runs of characters that are not
  whitespace, in order. \<open>cur\<close> is the word being read, reversed.
\<close>

fun split_loop :: "string \<Rightarrow> string \<Rightarrow> string list" where
  "split_loop cur [] = (if cur = [] then [] else [rev cur])"
| "split_loop cur (c # cs) =
     (if isspace c
      then (if cur = [] then split_loop [] cs else rev cur # split_loop [] cs)
      else split_loop (c # cur) cs)"

definition str_split :: "string \<Rightarrow> string list" where
  "str_split s = split_loop [] s"

text \<open>\<open>p in t\<close> on two strings: \<open>p\<close> occurs in \<open>t\<close> as a contiguous block.\<close>

definition str_in :: "string \<Rightarrow> string \<Rightarrow> bool" where
  "str_in p t = sublist p t"

text \<open>\<open>sep.join(xs)\<close>.\<close>

fun join :: "string \<Rightarrow> string list \<Rightarrow> string" where
  "join sep [] = []"
| "join sep [x] = x"
| "join sep (x # y # ys) = x @ sep @ join sep (y # ys)"

text \<open>\<open>text.lower()\<close> and \<open>text.strip()\<close> on a value that may not be a string.\<close>

fun py_lower :: "pyval \<Rightarrow> fault + string" where
  "py_lower (PStr s) = Inr (str_lower s)"
| "py_lower v = Inl (AttributeError v)"

fun py_strip :: "pyval \<Rightarrow> fault + string" where
  "py_strip (PStr s) = Inr (str_strip s)"
| "py_strip v = Inl (AttributeError v)"

text \<open>
  \<open>score < threshold\<close> with a float on the left: a number compares, a \<open>bool\<close> is the
  integer 0 or 1, anything else raises.
\<close>

fun py_lt :: "rat \<Rightarrow> pyval \<Rightarrow> fault + bool" where
  "py_lt x (PNum r) = Inr (x < r)"
| "py_lt x (PBool b) = Inr (x < (if b then 1 else 0))"
| "py_lt x v = Inl (TypeError v)"

text \<open>\<open>d.get(key)\<close> on a dictionary: \<open>None\<close> when the key is missing.\<close>

definition dict_get :: "(string \<times> pyval) list \<Rightarrow> string \<Rightarrow> pyval" where
  "dict_get kvs key = (case map_of kvs key of None \<Rightarrow> PNone | Some v \<Rightarrow> v)"

text \<open>
  \<open>context and context.get(key)\<close>, taken as a condition. A falsy \<open>context\<close> (\<open>None\<close>,
  the empty dictionary) short-circuits; a truthy one that is no dictionary has no
  \<open>get\<close>.
\<close>

definition context_flag :: "pyval \<Rightarrow> string \<Rightarrow> fault + bool" where
  "context_flag context key =
     (if truthy context
      then (case context of
              PDict kvs \<Rightarrow> Inr (truthy (dict_get kvs key))
            | _ \<Rightarrow> Inl (AttributeError context))
      else Inr False)"

text \<open>A well-typed \<open>Optional[Dict]\<close> argument as a Python value.\<close>

fun py_context :: "(string \<times> pyval) list option \<Rightarrow> pyval" where
  "py_context None = PNone"
| "py_context (Some kvs) = PDict kvs"

section \<open>The ambient state\<close>

text \<open>
  What a call can read or write besides its arguments: the clock (\<open>time.time()\<close>,
  \<open>datetime.utcnow()\<close>), as the sequence of the readings still to come; the
  interpreter's hash seed; and the log. Reading the clock consumes one reading.
\<close>

datatype log_record = Debug fstring | Info fstring | Error fstring

record world =
  clock :: "nat \<Rightarrow> rat"
  hash_seed :: nat
  log_records :: "log_record list"

definition time_time :: "world \<Rightarrow> rat \<times> world" where
  "time_time w = (clock w 0, w\<lparr>clock := (\<lambda>n. clock w (Suc n))\<rparr>)"

definition logger :: "(fstring \<Rightarrow> log_record) \<Rightarrow> fstring \<Rightarrow> world \<Rightarrow> world" where
  "logger level msg w = w\<lparr>log_records := log_records w @ [level msg]\<rparr>"

text \<open>
  The marker loops of the personalization and logic analyzers:
  \<open>for marker in markers: if marker in text_lower: score += bonus\<close>. The markers are
  string literals of the code.
\<close>

fun bonus_loop :: "rat \<Rightarrow> string \<Rightarrow> string list \<Rightarrow> rat \<Rightarrow> rat" where
  "bonus_loop bonus text_lower [] score = score"
| "bonus_loop bonus text_lower (marker # markers) score =
     (if str_in marker text_lower
      then bonus_loop bonus text_lower markers (score + bonus)
      else bonus_loop bonus text_lower markers score)"

section \<open>Audit chain: \<open>backend/services/hash_service.py\<close>\<close>

text \<open>
  \<open>HashService.sha256\<close> calls \<open>hashlib.sha256\<close>, which is not code of the repository.
  The digest function is therefore a parameter \<open>H\<close> of the model, from a string to
  its hexadecimal digest. Nothing of \<open>HashService.generate_chain_hash\<close> or
  \<open>HashService.verify_chain\<close> reads \<open>self.secret_key\<close>, so the service object is
  not an argument.
\<close>

type_synonym digest = "string \<Rightarrow> string"

text \<open>
  The body of the \<open>for entry_hash in hashes\<close> loop of \<open>generate_chain_hash\<close>,
  with the running \<open>chain_hash\<close> as accumulator:
  \<open>chain_hash = self.sha256(f"{chain_hash}|{entry_hash}")\<close>.
\<close>

fun chain_loop :: "digest \<Rightarrow> string \<Rightarrow> string list \<Rightarrow> string" where
  "chain_loop H chain_hash [] = chain_hash"
| "chain_loop H chain_hash (entry_hash # hashes) =
     chain_loop H (H (chain_hash @ ''|'' @ entry_hash)) hashes"

definition generate_chain_hash :: "digest \<Rightarrow> string list \<Rightarrow> string" where
  "generate_chain_hash H hashes = chain_loop H ''genesis'' hashes"

definition verify_chain :: "digest \<Rightarrow> string list \<Rightarrow> string \<Rightarrow> bool" where
  "verify_chain H hashes expected_chain_hash =
     (let computed_hash = generate_chain_hash H hashes
      in computed_hash = expected_chain_hash)"

section \<open>The enforcement engine: \<open>middleware/spiel_engine.py\<close>\<close>

datatype EnforcementAction = ALLOW | BLOCK | WARN | REVIEW | MODIFY

record SPIELResult =
  action :: EnforcementAction
  safety_score :: rat
  personalization_score :: rat
  integrity_score :: rat
  ethics_score :: rat
  logic_score :: rat
  composite_score :: rat
  violations :: "string list"
  modifications :: "string option"
  reasoning :: fstring
  processing_time_ms :: rat
  timestamp :: rat

text \<open>
  The attributes \<open>SPIELEngine.__init__\<close> sets from the policy document. The pattern
  entries are JSON arrays, as in \<open>_default_policy\<close>; their elements, the thresholds
  and the flag are whatever values the document holds.
\<close>

record SPIELEngine =
  safety_threshold :: pyval
  ethics_threshold :: pyval
  integrity_threshold :: pyval
  logic_threshold :: pyval
  personalization_threshold :: pyval
  harmful_patterns :: "pyval list"
  unethical_patterns :: "pyval list"
  dishonest_patterns :: "pyval list"
  positive_patterns :: "pyval list"
  fail_closed :: pyval

text \<open>The engine built from \<open>_default_policy()\<close>.\<close>

definition default_policy :: SPIELEngine where
  "default_policy =
     \<lparr>safety_threshold = PNum 85,
      ethics_threshold = PNum 90,
      integrity_threshold = PNum 80,
      logic_threshold = PNum 75,
      personalization_threshold = PNum 70,
      harmful_patterns = map PStr
        [''harm'', ''hurt'', ''attack'', ''kill'', ''destroy'',
         ''hate'', ''violence'', ''weapon'', ''bomb'', ''poison''],
      unethical_patterns = map PStr
        [''cheat'', ''lie'', ''deceive'', ''manipulate'',
         ''exploit'', ''abuse'', ''steal'', ''fraud''],
      dishonest_patterns = map PStr
        [''trust me'', ''believe me'', ''guarantee'',
         ''secret'', ''don't tell'', ''definitely''],
      positive_patterns = map PStr
        [''help'', ''assist'', ''support'', ''understand'',
         ''because'', ''reason'', ''based on''],
      fail_closed = PBool True\<rparr>"

text \<open>
  The pattern loops of \<open>_analyze_safety\<close>, \<open>_analyze_integrity\<close> and
  \<open>_analyze_ethics\<close>, which differ in the penalty and in the label of the violation:
  \<open>if pattern in text_lower: score -= penalty; violations.append(f"label{pattern}")\<close>.
  \<open>pattern in text_lower\<close> raises \<open>TypeError\<close> on a pattern that is no string.
\<close>

fun penalty_loop ::
  "rat \<Rightarrow> string \<Rightarrow> string \<Rightarrow> pyval list \<Rightarrow> rat \<Rightarrow> string list \<Rightarrow> fault + (rat \<times> string list)"
where
  "penalty_loop penalty label text_lower [] score violations' = Inr (score, violations')"
| "penalty_loop penalty label text_lower (pattern # patterns) score violations' =
     (case pattern of
        PStr p \<Rightarrow>
          if str_in p text_lower
          then penalty_loop penalty label text_lower patterns
                 (score - penalty) (violations' @ [label @ p])
          else penalty_loop penalty label text_lower patterns score violations'
      | _ \<Rightarrow> Inl (TypeError pattern))"

definition engine_analyze_safety :: "SPIELEngine \<Rightarrow> pyval \<Rightarrow> fault + (rat \<times> string list)" where
  "engine_analyze_safety eng text =
     bindE (py_lower text) (\<lambda>text_lower.
     bindE (penalty_loop 15 ''harmful_pattern:'' text_lower (harmful_patterns eng) 100 [])
       (\<lambda>(score, violations). Inr (max 0 score, violations)))"

definition engine_analyze_personalization :: "pyval \<Rightarrow> pyval \<Rightarrow> fault + rat" where
  "engine_analyze_personalization text context =
     bindE (py_lower text) (\<lambda>text_lower.
     let score = bonus_loop 4 text_lower
                   [''you'', ''your'', ''help'', ''assist'', ''would you like''] 80
     in bindE (context_flag context ''user_preferences'') (\<lambda>has_preferences.
        let score = (if has_preferences then score + 5 else score)
        in Inr (min 100 score)))"

definition engine_analyze_integrity :: "SPIELEngine \<Rightarrow> pyval \<Rightarrow> fault + (rat \<times> string list)" where
  "engine_analyze_integrity eng text =
     bindE (py_lower text) (\<lambda>text_lower.
     bindE (penalty_loop 15 ''dishonest_pattern:'' text_lower (dishonest_patterns eng) 95 [])
       (\<lambda>(score, violations). Inr (max 0 score, violations)))"

definition engine_analyze_ethics :: "SPIELEngine \<Rightarrow> pyval \<Rightarrow> fault + (rat \<times> string list)" where
  "engine_analyze_ethics eng text =
     bindE (py_lower text) (\<lambda>text_lower.
     bindE (penalty_loop 20 ''unethical_pattern:'' text_lower (unethical_patterns eng) 100 [])
       (\<lambda>(score, violations). Inr (max 0 score, violations)))"

definition engine_analyze_logic :: "pyval \<Rightarrow> fault + rat" where
  "engine_analyze_logic text =
     bindE (py_lower text) (\<lambda>text_lower.
     let score = bonus_loop 3 text_lower
                   [''because'', ''therefore'', ''thus'', ''since'', ''based on''] 85
     in bindE (py_strip text) (\<lambda>stripped.
        let score = (if length stripped < 10 then score - 20 else score)
        in Inr (max 0 (min 100 score))))"

text \<open>
  \<open>_determine_action\<close>: the first test that holds decides. The two critical tests
  compare with the literal 50; the four threshold tests compare with policy values
  and can raise.
\<close>

definition below_threshold :: "string \<Rightarrow> rat \<Rightarrow> pyval \<Rightarrow> fstring" where
  "below_threshold name score threshold =
     [Txt (name @ '' below threshold (''), Fixed 1 score, Txt '' < '', Str threshold, Txt '')'']"

definition determine_action ::
  "SPIELEngine \<Rightarrow> rat \<Rightarrow> rat \<Rightarrow> rat \<Rightarrow> rat \<Rightarrow> rat \<Rightarrow> string list
     \<Rightarrow> fault + (EnforcementAction \<times> fstring)" where
  "determine_action eng safety personalization integrity ethics logic violations' =
     (if safety < 50 \<or> ethics < 50
      then Inr (BLOCK, [Txt ''Critical safety or ethics violation''])
      else bindE (py_lt safety (safety_threshold eng)) (\<lambda>safety_low.
        if safety_low
        then Inr (BLOCK, below_threshold ''Safety'' safety (safety_threshold eng))
        else bindE (py_lt ethics (ethics_threshold eng)) (\<lambda>ethics_low.
          if ethics_low
          then Inr (BLOCK, below_threshold ''Ethics'' ethics (ethics_threshold eng))
          else bindE (py_lt integrity (integrity_threshold eng)) (\<lambda>integrity_low.
            if integrity_low
            then Inr (WARN, below_threshold ''Integrity'' integrity (integrity_threshold eng))
            else bindE (py_lt logic (logic_threshold eng)) (\<lambda>logic_low.
              if logic_low
              then Inr (WARN, below_threshold ''Logic'' logic (logic_threshold eng))
              else if violations' \<noteq> []
              then Inr (REVIEW,
                     [Txt (''Violations detected: '' @ join '', '' (take 3 violations'))])
              else Inr (ALLOW, [Txt ''All SPIEL criteria passed'']))))))"

text \<open>
  The \<open>try\<close> block of \<open>enforce\<close>. An exception leaves it before the clock is read,
  so on \<open>Inl\<close> the state is the one the block started in.
\<close>

definition enforce_try ::
  "SPIELEngine \<Rightarrow> pyval \<Rightarrow> pyval \<Rightarrow> rat \<Rightarrow> world \<Rightarrow> fault + (SPIELResult \<times> world)" where
  "enforce_try eng text context start_time w =
     bindE (engine_analyze_safety eng text) (\<lambda>(safety_score, safety_violations).
     bindE (engine_analyze_personalization text context) (\<lambda>personalization_score.
     bindE (engine_analyze_integrity eng text) (\<lambda>(integrity_score, integrity_violations).
     bindE (engine_analyze_ethics eng text) (\<lambda>(ethics_score, ethics_violations).
     bindE (engine_analyze_logic text) (\<lambda>logic_score.
     let all_violations = safety_violations @ integrity_violations @ ethics_violations;
         composite_score =
           (safety_score + personalization_score + integrity_score
              + ethics_score + logic_score) / 5
     in bindE (determine_action eng safety_score personalization_score integrity_score
                 ethics_score logic_score all_violations) (\<lambda>(action, reasoning).
        let (now, w1) = time_time w;
            processing_time = (now - start_time) * 1000;
            (utcnow, w2) = time_time w1
        in Inr (\<lparr>action = action,
                  safety_score = safety_score,
                  personalization_score = personalization_score,
                  integrity_score = integrity_score,
                  ethics_score = ethics_score,
                  logic_score = logic_score,
                  composite_score = composite_score,
                  violations = all_violations,
                  modifications = None,
                  reasoning = reasoning,
                  processing_time_ms = processing_time,
                  timestamp = utcnow\<rparr>, w2)))))))"

text \<open>
  \<open>enforce\<close>, with its \<open>except Exception\<close> handler: the error is logged; then the
  engine answers with the blocked result when \<open>self.fail_closed\<close> is truthy, and
  raises the exception again when it is not.
\<close>

definition enforce ::
  "SPIELEngine \<Rightarrow> pyval \<Rightarrow> pyval \<Rightarrow> world \<Rightarrow> (fault + SPIELResult) \<times> world" where
  "enforce eng text context w =
     (let (start_time, w0) = time_time w
      in case enforce_try eng text context start_time w0 of
           Inr (result, w') \<Rightarrow> (Inr result, w')
         | Inl e \<Rightarrow>
             (let w1 = logger Error [Txt ''SPIEL enforcement error: '', ExcStr e] w0
              in if truthy (fail_closed eng)
                 then (let (now, w2) = time_time w1;
                           (utcnow, w3) = time_time w2
                       in (Inr \<lparr>action = BLOCK,
                                 safety_score = 0,
                                 personalization_score = 0,
                                 integrity_score = 0,
                                 ethics_score = 0,
                                 logic_score = 0,
                                 composite_score = 0,
                                 violations = [''system_error''],
                                 modifications = None,
                                 reasoning =
                                   [Txt ''Fail-closed triggered due to error: '', ExcStr e],
                                 processing_time_ms = (now - start_time) * 1000,
                                 timestamp = utcnow\<rparr>, w3))
                 else (Inl e, w1)))"

section \<open>The scorer of the backend: \<open>backend/services/spiel_service.py\<close>\<close>

text \<open>
  The attributes of a \<open>SPIELService\<close>. The engine has attributes of the same names,
  so these carry the prefix \<open>svc_\<close>.
\<close>

record SPIELService =
  svc_safety_threshold :: rat
  svc_ethics_threshold :: rat
  svc_integrity_threshold :: rat
  svc_harmful_patterns :: "string list"
  svc_dishonest_patterns :: "string list"
  svc_unethical_patterns :: "string list"
  svc_personal_markers :: "string list"
  svc_logic_markers :: "string list"

text \<open>\<open>SPIELService.__init__\<close>, with the three thresholds it reads from \<open>config\<close>.\<close>

definition SPIELService_init :: "(string \<rightharpoonup> rat) \<Rightarrow> SPIELService" where
  "SPIELService_init config =
     \<lparr>svc_safety_threshold =
        (case config ''safety_threshold'' of None \<Rightarrow> 85 | Some v \<Rightarrow> v),
      svc_ethics_threshold =
        (case config ''ethics_threshold'' of None \<Rightarrow> 90 | Some v \<Rightarrow> v),
      svc_integrity_threshold =
        (case config ''integrity_threshold'' of None \<Rightarrow> 80 | Some v \<Rightarrow> v),
      svc_harmful_patterns =
        [''harm'', ''hurt'', ''attack'', ''kill'', ''destroy'',
         ''hate'', ''violence'', ''dangerous'', ''threat'', ''murder'',
         ''weapon'', ''bomb'', ''explosive'', ''poison''],
      svc_dishonest_patterns =
        [''just trust me'', ''believe me'', ''i guarantee'',
         ''secret'', ''don't tell anyone'', ''between us'',
         ''definitely'', ''absolutely certain'', ''100% guarantee''],
      svc_unethical_patterns =
        [''cheat'', ''lie'', ''deceive'', ''manipulate'',
         ''exploit'', ''abuse'', ''steal'', ''fraud'',
         ''illegal'', ''scam''],
      svc_personal_markers =
        [''you'', ''your'', ''i can help'', ''let me'',
         ''would you like'', ''i understand'', ''here's what''],
      svc_logic_markers =
        [''because'', ''therefore'', ''thus'', ''consequently'',
         ''as a result'', ''due to'', ''since'', ''given that'']\<rparr>"

definition quoted :: "string \<Rightarrow> string" where
  "quoted s = CHR 0x27 # s @ [CHR 0x27]"

text \<open>
  The pattern loops of the service's \<open>_analyze_safety\<close>, \<open>_analyze_integrity\<close> and
  \<open>_analyze_ethics\<close>: each match lowers the score and writes a debug line.
\<close>

fun logged_penalty_loop ::
  "rat \<Rightarrow> string \<Rightarrow> string \<Rightarrow> string list \<Rightarrow> rat \<Rightarrow> world \<Rightarrow> rat \<times> world"
where
  "logged_penalty_loop penalty found text_lower [] score w = (score, w)"
| "logged_penalty_loop penalty found text_lower (pattern # patterns) score w =
     (if str_in pattern text_lower
      then logged_penalty_loop penalty found text_lower patterns (score - penalty)
             (logger Debug [Txt (found @ quoted pattern)] w)
      else logged_penalty_loop penalty found text_lower patterns score w)"

definition service_analyze_safety :: "SPIELService \<Rightarrow> string \<Rightarrow> world \<Rightarrow> rat \<times> world" where
  "service_analyze_safety svc text w =
     (let text_lower = str_lower text;
          (score, w') = logged_penalty_loop 15 ''Safety: Found harmful pattern ''
                          text_lower (svc_harmful_patterns svc) 100 w
      in (max 0 (min 100 score), w'))"

definition service_analyze_personalization ::
  "SPIELService \<Rightarrow> string \<Rightarrow> (string \<times> pyval) list option \<Rightarrow> rat" where
  "service_analyze_personalization svc text context =
     (let text_lower = str_lower text;
          score = bonus_loop 3 text_lower (svc_personal_markers svc) 80;
          score = (case context of
                     None \<Rightarrow> score
                   | Some kvs \<Rightarrow>
                       if kvs = [] then score
                       else (let score = (if truthy (dict_get kvs ''user_preferences'')
                                          then score + 5 else score)
                             in if truthy (dict_get kvs ''conversation_history'')
                                then score + 3 else score))
      in min 100 score)"

definition service_analyze_integrity :: "SPIELService \<Rightarrow> string \<Rightarrow> world \<Rightarrow> rat \<times> world" where
  "service_analyze_integrity svc text w =
     (let text_lower = str_lower text;
          (score, w') = logged_penalty_loop 15 ''Integrity: Found dishonest pattern ''
                          text_lower (svc_dishonest_patterns svc) 95 w
      in (max 0 score, w'))"

definition service_analyze_ethics :: "SPIELService \<Rightarrow> string \<Rightarrow> world \<Rightarrow> rat \<times> world" where
  "service_analyze_ethics svc text w =
     (let text_lower = str_lower text;
          (score, w') = logged_penalty_loop 20 ''Ethics: Found unethical pattern ''
                          text_lower (svc_unethical_patterns svc) 100 w
      in (max 0 score, w'))"

text \<open>
  \<open>len(set(words))\<close> is the number of distinct words, whatever order the set keeps
  them in: \<open>length (remdups words)\<close>.
\<close>

definition service_analyze_logic :: "SPIELService \<Rightarrow> string \<Rightarrow> rat" where
  "service_analyze_logic svc text =
     (let text_lower = str_lower text;
          score = bonus_loop 3 text_lower (svc_logic_markers svc) 85;
          score = (if length (str_strip text) < 10 then score - 20 else score);
          words = str_split text_lower;
          score = (if length words > 5
                   then (let unique_ratio =
                               (of_nat (length (remdups words)) :: rat) / of_nat (length words)
                         in if unique_ratio < 1 / 2 then score - 15 else score)
                   else score)
      in max 0 (min 100 score))"

record SPIELAnalysis =
  safety :: rat
  personalization :: rat
  integrity :: rat
  ethics :: rat
  logic :: rat
  composite :: rat
  is_passing :: bool
  thresholds :: "(string \<times> rat) list"

definition analyze ::
  "SPIELService \<Rightarrow> string \<Rightarrow> (string \<times> pyval) list option \<Rightarrow> world
     \<Rightarrow> SPIELAnalysis \<times> world" where
  "analyze svc text context w =
     (let w1 = logger Debug [Txt (''Analyzing text: '' @ take 100 text @ ''...'')] w;
          (safety_score, w2) = service_analyze_safety svc text w1;
          personalization_score = service_analyze_personalization svc text context;
          (integrity_score, w3) = service_analyze_integrity svc text w2;
          (ethics_score, w4) = service_analyze_ethics svc text w3;
          logic_score = service_analyze_logic svc text;
          composite' =
            (safety_score + personalization_score + integrity_score
               + ethics_score + logic_score) / 5;
          is_passing' =
            (safety_score \<ge> svc_safety_threshold svc \<and>
             integrity_score \<ge> svc_integrity_threshold svc \<and>
             ethics_score \<ge> svc_ethics_threshold svc \<and>
             composite' \<ge> svc_safety_threshold svc);
          result =
            \<lparr>safety = safety_score,
             personalization = personalization_score,
             integrity = integrity_score,
             ethics = ethics_score,
             logic = logic_score,
             composite = composite',
             is_passing = is_passing',
             thresholds =
               [(''safety'', svc_safety_threshold svc),
                (''ethics'', svc_ethics_threshold svc),
                (''integrity'', svc_integrity_threshold svc)]\<rparr>;
          w5 = logger Info
                 [Txt ''SPIEL analysis complete: composite='', Fixed 1 composite',
                  Txt '', passing='', Str (PBool is_passing')] w4
      in (result, w5))"

section \<open>The validator of the backend: \<open>backend/services/tht_service.py\<close>\<close>

record THTService =
  confidence_threshold :: rat
  false_patterns :: "string list"
  tht_dishonest_patterns :: "string list"
  transparent_markers :: "string list"
  claim_patterns :: "string list"

definition THTService_init :: "(string \<rightharpoonup> rat) \<Rightarrow> THTService" where
  "THTService_init config =
     \<lparr>confidence_threshold =
        (case config ''confidence_threshold'' of None \<Rightarrow> 8 / 10 | Some v \<Rightarrow> v),
      false_patterns =
        [''definitely'', ''absolutely certain'', ''100% guarantee'',
         ''always true'', ''never wrong'', ''guaranteed to work'',
         ''everyone knows'', ''obviously'', ''undeniably''],
      tht_dishonest_patterns =
        [''just between us'', ''don't tell'', ''keep this secret'',
         ''you can trust me'', ''believe me'', ''trust me on this'',
         ''off the record'', ''confidentially''],
      transparent_markers =
        [''because'', ''the reason'', ''this is based on'',
         ''according to'', ''evidence suggests'', ''research shows'',
         ''in my understanding'', ''i believe'', ''it appears that'',
         ''based on'', ''considering''],
      claim_patterns =
        [''is'', ''are'', ''will'', ''should'', ''must'',
         ''can'', ''cannot'', ''always'', ''never'']\<rparr>"

text \<open>
  The loops of \<open>_verify_truth\<close> and \<open>_verify_honesty\<close>: the first pattern found
  writes a debug line and returns \<open>False\<close>.
\<close>

fun first_match_loop :: "string \<Rightarrow> string \<Rightarrow> string list \<Rightarrow> world \<Rightarrow> bool \<times> world" where
  "first_match_loop found text_lower [] w = (True, w)"
| "first_match_loop found text_lower (pattern # patterns) w =
     (if str_in pattern text_lower
      then (False, logger Debug [Txt (found @ quoted pattern)] w)
      else first_match_loop found text_lower patterns w)"

definition verify_truth :: "THTService \<Rightarrow> string \<Rightarrow> world \<Rightarrow> bool \<times> world" where
  "verify_truth svc text w =
     (let text_lower = str_lower text
      in first_match_loop ''Truth: Found false pattern '' text_lower (false_patterns svc) w)"

definition verify_honesty :: "THTService \<Rightarrow> string \<Rightarrow> world \<Rightarrow> bool \<times> world" where
  "verify_honesty svc text w =
     (let text_lower = str_lower text
      in first_match_loop ''Honesty: Found dishonest pattern '' text_lower
           (tht_dishonest_patterns svc) w)"

definition verify_transparency :: "THTService \<Rightarrow> string \<Rightarrow> world \<Rightarrow> bool \<times> world" where
  "verify_transparency svc text w =
     (let text_lower = str_lower text;
          has_claims = list_ex (\<lambda>pattern. str_in pattern text_lower) (claim_patterns svc)
      in if has_claims
         then (let has_transparency =
                     list_ex (\<lambda>marker. str_in marker text_lower) (transparent_markers svc)
               in if length text < 50 then (True, w)
                  else if \<not> has_transparency
                  then (False,
                        logger Debug
                          [Txt ''Transparency: Claims without supporting reasoning''] w)
                  else (True, w))
         else (True, w))"

record THTResult =
  truth_verified :: bool
  honesty_verified :: bool
  transparency_verified :: bool
  confidence_score :: rat
  is_compliant :: bool
  issues :: "string list"

definition validate ::
  "THTService \<Rightarrow> string \<Rightarrow> (string \<times> pyval) list option \<Rightarrow> world \<Rightarrow> THTResult \<times> world" where
  "validate svc text context w =
     (let w1 = logger Debug [Txt (''Validating text: '' @ take 100 text @ ''...'')] w;
          issues0 = [];
          (truth, w2) = verify_truth svc text w1;
          issues1 = (if \<not> truth
                     then issues0 @ [''Truth verification failed: overconfident claims detected'']
                     else issues0);
          (honesty, w3) = verify_honesty svc text w2;
          issues2 = (if \<not> honesty
                     then issues1 @
                       [''Honesty check failed: secretive or manipulative patterns detected'']
                     else issues1);
          (transparency, w4) = verify_transparency svc text w3;
          issues3 = (if \<not> transparency
                     then issues2 @
                       [''Transparency check failed: claims without supporting reasoning'']
                     else issues2);
          verified_count = sum_list (map (\<lambda>b. if b then 1 else 0) [truth, honesty, transparency]);
          confidence = (of_nat verified_count :: rat) / 3;
          compliant = (truth \<and> honesty \<and> transparency \<and> confidence \<ge> confidence_threshold svc);
          result =
            \<lparr>truth_verified = truth,
             honesty_verified = honesty,
             transparency_verified = transparency,
             confidence_score = confidence,
             is_compliant = compliant,
             issues = issues3\<rparr>;
          w5 = logger Info
                 [Txt ''THT validation complete: compliant='', Str (PBool compliant),
                  Txt '', confidence='', Fixed 2 confidence] w4
      in (result, w5))"

section \<open>The safety analyzers on strings of arbitrary code points\<close>

text \<open>
  A Python string is a list of code points. \<open>str.lower\<close> is CPython's: every
  character but the capital sigma \<open>U+03A3\<close> (931) is replaced by its full lower-case
  mapping, which may be several code points; a capital sigma becomes the final sigma
  \<open>U+03C2\<close> (962) when a cased character stands before it and none after it, case-
  ignorable characters skipped on both sides, and the small sigma \<open>U+03C3\<close> (963)
  otherwise. The lower-case mapping and the properties Cased and Case_Ignorable are
  tables of the Unicode character database, which is no part of the repository: they
  are a parameter of the model.
\<close>

type_synonym ustring = "nat list"

record unicode_db =
  to_lower_full :: "nat \<Rightarrow> nat list"
  is_cased :: "nat \<Rightarrow> bool"
  is_case_ignorable :: "nat \<Rightarrow> bool"

text \<open>
  \<open>before\<close> holds the characters before the sigma, the nearest first, and \<open>after\<close>
  the characters after it.
\<close>

definition final_sigma :: "unicode_db \<Rightarrow> ustring \<Rightarrow> ustring \<Rightarrow> bool" where
  "final_sigma U before after =
     ((case dropWhile (is_case_ignorable U) before of
         [] \<Rightarrow> False
       | c # _ \<Rightarrow> is_cased U c) \<and>
      (case dropWhile (is_case_ignorable U) after of
         [] \<Rightarrow> True
       | c # _ \<Rightarrow> \<not> is_cased U c))"

fun lower_loop :: "unicode_db \<Rightarrow> ustring \<Rightarrow> ustring \<Rightarrow> ustring" where
  "lower_loop U before [] = []"
| "lower_loop U before (c # after) =
     (if c = 931 then [if final_sigma U before after then 962 else 963]
      else to_lower_full U c)
     @ lower_loop U (c # before) after"

definition unicode_lower :: "unicode_db \<Rightarrow> ustring \<Rightarrow> ustring" where
  "unicode_lower U s = lower_loop U [] s"

text \<open>A string of code points below 256 as a list of code points.\<close>

definition code_points :: "string \<Rightarrow> ustring" where
  "code_points s = map of_char s"

text \<open>
  An entry of a pattern list of the policy: a string, or a value that is no string. An
  entry of the model above is read as one of these.
\<close>

datatype upattern = UStr ustring | UOther pyval

fun upattern_of :: "pyval \<Rightarrow> upattern" where
  "upattern_of (PStr s) = UStr (code_points s)"
| "upattern_of v = UOther v"

text \<open>
  \<open>SPIELEngine._analyze_safety\<close> on a string of code points, with the attribute
  \<open>self.harmful_patterns\<close> as the argument \<open>harmful\<close>: the loop of \<open>penalty_loop\<close>
  and the same result.
\<close>

fun unicode_penalty_loop ::
  "rat \<Rightarrow> ustring \<Rightarrow> ustring \<Rightarrow> upattern list \<Rightarrow> rat \<Rightarrow> ustring list
     \<Rightarrow> fault + (rat \<times> ustring list)"
where
  "unicode_penalty_loop penalty label text_lower [] score violations' =
     Inr (score, violations')"
| "unicode_penalty_loop penalty label text_lower (pattern # patterns) score violations' =
     (case pattern of
        UStr p \<Rightarrow>
          if sublist p text_lower
          then unicode_penalty_loop penalty label text_lower patterns
                 (score - penalty) (violations' @ [label @ p])
          else unicode_penalty_loop penalty label text_lower patterns score violations'
      | UOther v \<Rightarrow> Inl (TypeError v))"

definition unicode_engine_analyze_safety ::
  "unicode_db \<Rightarrow> upattern list \<Rightarrow> ustring \<Rightarrow> fault + (rat \<times> ustring list)" where
  "unicode_engine_analyze_safety U harmful text =
     (let text_lower = unicode_lower U text
      in bindE (unicode_penalty_loop 15 (code_points ''harmful_pattern:'') text_lower
                  harmful 100 [])
           (\<lambda>(score, violations). Inr (max 0 score, violations)))"

text \<open>
  \<open>SPIELService._analyze_safety\<close> on a string of code points. The patterns are the
  service's own, strings of code points below 256.
\<close>

fun unicode_logged_penalty_loop ::
  "rat \<Rightarrow> string \<Rightarrow> ustring \<Rightarrow> string list \<Rightarrow> rat \<Rightarrow> world \<Rightarrow> rat \<times> world"
where
  "unicode_logged_penalty_loop penalty found text_lower [] score w = (score, w)"
| "unicode_logged_penalty_loop penalty found text_lower (pattern # patterns) score w =
     (if sublist (code_points pattern) text_lower
      then unicode_logged_penalty_loop penalty found text_lower patterns (score - penalty)
             (logger Debug [Txt (found @ quoted pattern)] w)
      else unicode_logged_penalty_loop penalty found text_lower patterns score w)"

definition unicode_service_analyze_safety ::
  "unicode_db \<Rightarrow> SPIELService \<Rightarrow> ustring \<Rightarrow> world \<Rightarrow> rat \<times> world" where
  "unicode_service_analyze_safety U svc text w =
     (let text_lower = unicode_lower U text;
          (score, w') = unicode_logged_penalty_loop 15 ''Safety: Found harmful pattern ''
                          text_lower (svc_harmful_patterns svc) 100 w
      in (max 0 (min 100 score), w'))"

text \<open>
  The tables of the Unicode character database on the code points below 256 and on
  the Greek letters \<open>U+0384\<close> to \<open>U+03CE\<close> (900 to 974). Outside these two ranges
  the record below is the identity and \<open>False\<close>, and is not the database.
\<close>

definition unicode_tables :: unicode_db where
  "unicode_tables =
     \<lparr>to_lower_full = (\<lambda>c.
        if (65 \<le> c \<and> c \<le> 90) \<or> (192 \<le> c \<and> c \<le> 214) \<or> (216 \<le> c \<and> c \<le> 222)
           \<or> (913 \<le> c \<and> c \<le> 929) \<or> (931 \<le> c \<and> c \<le> 939)
        then [c + 32]
        else if c = 902 then [940]
        else if 904 \<le> c \<and> c \<le> 906 then [c + 37]
        else if c = 908 then [972]
        else if c = 910 \<or> c = 911 then [c + 63]
        else [c]),
      is_cased = (\<lambda>c.
        (65 \<le> c \<and> c \<le> 90) \<or> (97 \<le> c \<and> c \<le> 122) \<or> c = 170 \<or> c = 181 \<or> c = 186
        \<or> (192 \<le> c \<and> c \<le> 214) \<or> (216 \<le> c \<and> c \<le> 246) \<or> (248 \<le> c \<and> c \<le> 255)
        \<or> c = 902 \<or> (904 \<le> c \<and> c \<le> 906) \<or> c = 908 \<or> (910 \<le> c \<and> c \<le> 929)
        \<or> (931 \<le> c \<and> c \<le> 974)),
      is_case_ignorable = (\<lambda>c.
        c = 39 \<or> c = 46 \<or> c = 58 \<or> c = 94 \<or> c = 96 \<or> c = 168 \<or> c = 173 \<or> c = 175
        \<or> c = 180 \<or> c = 183 \<or> c = 184 \<or> c = 900 \<or> c = 901 \<or> c = 903)\<rparr>"

text \<open>The restriction on a pattern list: no string entry holds the final sigma.\<close>

fun no_final_sigma :: "upattern \<Rightarrow> bool" where
  "no_final_sigma (UStr p) = (962 \<notin> set p)"
| "no_final_sigma (UOther v) = True"

section \<open>Notions used in the statements\<close>

text \<open>
  The number of entries of a pattern list that occur in the lowered text. Every loop
  above tests each entry once, so a score is its baseline plus or minus a fixed
  amount per hit.
\<close>

definition hits :: "string list \<Rightarrow> string \<Rightarrow> nat" where
  "hits patterns text_lower = length (filter (\<lambda>p. str_in p text_lower) patterns)"

text \<open>
  Rounding to \<open>d\<close> decimal places, for the spec's "rounded to a fixed decimal
  precision": the nearest multiple of \<open>1 / 10 ^ d\<close>. The code has no rounding step;
  the statement about the composite score compares it with this function.
\<close>

definition round_to_decimals :: "nat \<Rightarrow> rat \<Rightarrow> rat" where
  "round_to_decimals d x = of_int (round (x * 10 ^ d)) / 10 ^ d"

section \<open>Properties of the audit chain\<close>

lemma chain_loop_append:
  "chain_loop H c (xs @ ys) = chain_loop H (chain_loop H c xs) ys"
  by (induction xs arbitrary: c) simp_all

lemma chain_loop_inj_start:
  assumes "inj H"
  shows "chain_loop H c hs = chain_loop H c' hs \<longleftrightarrow> c = c'"
proof (induction hs arbitrary: c c')
  case Nil
  show ?case by simp
next
  case (Cons h hs)
  have "H (c @ ''|'' @ h) = H (c' @ ''|'' @ h) \<longleftrightarrow> c = c'"
    using assms by (auto dest: injD)
  with Cons.IH show ?case by simp
qed

lemma chain_loop_tamper:
  assumes "inj H" and "i < length hs" and "v \<noteq> hs ! i"
  shows "chain_loop H c (hs[i := v]) \<noteq> chain_loop H c hs"
  using assms(2,3)
proof (induction hs arbitrary: i c)
  case Nil
  then show ?case by simp
next
  case (Cons h hs)
  show ?case
  proof (cases i)
    case 0
    with Cons.prems have "v \<noteq> h" by simp
    then have "H (c @ ''|'' @ v) \<noteq> H (c @ ''|'' @ h)"
      using assms(1) by (auto dest: injD)
    then show ?thesis
      using 0 by (simp add: chain_loop_inj_start [OF assms(1)])
  next
    case (Suc j)
    with Cons.prems have "j < length hs" and "v \<noteq> hs ! j" by simp_all
    then show ?thesis
      using Suc Cons.IH by simp
  qed
qed

text \<open>
  Claim C2. A chain verifies against the tail computed from it; and when the digest
  is injective, overwriting the entry hash at any one position of the list with a
  different value makes verification against the original tail fail.
\<close>

theorem verify_chain_roundtrip_and_tamper:
  "verify_chain H hs (generate_chain_hash H hs) \<and>
   (inj H \<longrightarrow> i < length hs \<longrightarrow> v \<noteq> hs ! i \<longrightarrow>
      \<not> verify_chain H (hs[i := v]) (generate_chain_hash H hs))"
  by (simp add: verify_chain_def generate_chain_hash_def chain_loop_tamper)

theorem verify_chain_roundtrip_and_tamper_witness:
  "inj (\<lambda>s::string. s) \<and> (1::nat) < length [''aa'', ''bb'', ''cc''] \<and>
   ''xx'' \<noteq> [''aa'', ''bb'', ''cc''] ! 1 \<and>
   verify_chain (\<lambda>s. s) [''aa'', ''bb'', ''cc'']
     (generate_chain_hash (\<lambda>s. s) [''aa'', ''bb'', ''cc'']) \<and>
   \<not> verify_chain (\<lambda>s. s) ([''aa'', ''bb'', ''cc''][1 := ''xx''])
     (generate_chain_hash (\<lambda>s. s) [''aa'', ''bb'', ''cc''])"
  using verify_chain_roundtrip_and_tamper
    [of "\<lambda>s. s" "[''aa'', ''bb'', ''cc'']" 1 "''xx''"]
  by (simp add: inj_def)

text \<open>
  Claim C10. On the empty list the loop body never runs: the result is the literal
  \<open>''genesis''\<close> whatever the digest function is, and the empty list verifies
  against that constant.
\<close>

theorem chain_hash_empty_is_genesis:
  "generate_chain_hash H [] = ''genesis'' \<and> verify_chain H [] ''genesis''"
  by (simp add: verify_chain_def generate_chain_hash_def)

section \<open>The pattern loops in closed form\<close>

lemma hits_Nil: "hits [] txt = 0"
  by (simp add: hits_def)

lemma hits_Cons:
  "hits (p # ps) txt = (if str_in p txt then Suc (hits ps txt) else hits ps txt)"
  by (simp add: hits_def)

lemma bonus_loop_eq: "bonus_loop b txt ms s = s + b * of_nat (hits ms txt)"
  by (induction ms arbitrary: s) (simp_all add: hits_Nil hits_Cons algebra_simps)

lemma logged_penalty_loop_fst:
  "fst (logged_penalty_loop pen f txt ps s w) = s - pen * of_nat (hits ps txt)"
  by (induction ps arbitrary: s w) (simp_all add: hits_Nil hits_Cons algebra_simps)


text \<open>A pattern loop that returns has met strings only.\<close>

lemma penalty_loop_Inr:
  "penalty_loop pen lab txt ps s v = Inr (r, v') \<Longrightarrow>
     \<exists>strs. ps = map PStr strs \<and> r = s - pen * of_nat (hits strs txt)"
proof (induction ps arbitrary: s v)
  case Nil
  then show ?case by (simp add: hits_Nil)
next
  case (Cons p ps)
  then obtain q where q: "p = PStr q" by (cases p) simp_all
  show ?case
  proof (cases "str_in q txt")
    case True
    with Cons.prems q
    have "penalty_loop pen lab txt ps (s - pen) (v @ [lab @ q]) = Inr (r, v')" by simp
    from Cons.IH [OF this] obtain strs
      where "ps = map PStr strs" "r = s - pen - pen * of_nat (hits strs txt)" by blast
    then show ?thesis
      using q True by (intro exI [of _ "q # strs"]) (simp add: hits_Cons algebra_simps)
  next
    case False
    with Cons.prems q have "penalty_loop pen lab txt ps s v = Inr (r, v')" by simp
    from Cons.IH [OF this] obtain strs
      where "ps = map PStr strs" "r = s - pen * of_nat (hits strs txt)" by blast
    then show ?thesis
      using q False by (intro exI [of _ "q # strs"]) (simp add: hits_Cons)
  qed
qed

section \<open>The analyzers of the engine\<close>

lemma Ints_max: "(a::rat) \<in> \<int> \<Longrightarrow> b \<in> \<int> \<Longrightarrow> max a b \<in> \<int>"
  by (simp add: max_def)

lemma Ints_min: "(a::rat) \<in> \<int> \<Longrightarrow> b \<in> \<int> \<Longrightarrow> min a b \<in> \<int>"
  by (simp add: min_def)

lemma penalised_score:
  fixes base pen :: rat
  assumes "s = max 0 (base - pen * of_nat n)" "0 \<le> pen" "0 \<le> base" "base \<le> 100"
    "base \<in> \<int>" "pen \<in> \<int>"
  shows "0 \<le> s \<and> s \<le> 100 \<and> s \<in> \<int>"
proof -
  have "pen * of_nat n \<ge> 0" using assms(2) by simp
  then have "base - pen * of_nat n \<le> 100" using assms(4) by linarith
  moreover have "base - pen * of_nat n \<in> \<int>" using assms(5,6) by (simp add: Ints_diff Ints_mult)
  ultimately show ?thesis using assms(1) by (simp add: Ints_max)
qed

lemma engine_analyze_safety_Inr:
  assumes "engine_analyze_safety eng text = Inr (s, v)"
  shows "\<exists>t strs. text = PStr t \<and> harmful_patterns eng = map PStr strs \<and>
           s = max 0 (100 - 15 * of_nat (hits strs (str_lower t)))"
proof -
  from assms obtain t where t: "text = PStr t"
    by (cases "text") (simp_all add: engine_analyze_safety_def bindE_def)
  from assms t obtain r v' where
    "penalty_loop 15 ''harmful_pattern:'' (str_lower t) (harmful_patterns eng) 100 [] = Inr (r, v')"
    and s: "s = max 0 r"
    by (auto simp: engine_analyze_safety_def bindE_def split: sum.splits)
  from penalty_loop_Inr [OF this(1)] s t show ?thesis by blast
qed

lemma engine_analyze_integrity_Inr:
  assumes "engine_analyze_integrity eng text = Inr (s, v)"
  shows "\<exists>t strs. text = PStr t \<and> dishonest_patterns eng = map PStr strs \<and>
           s = max 0 (95 - 15 * of_nat (hits strs (str_lower t)))"
proof -
  from assms obtain t where t: "text = PStr t"
    by (cases "text") (simp_all add: engine_analyze_integrity_def bindE_def)
  from assms t obtain r v' where
    "penalty_loop 15 ''dishonest_pattern:'' (str_lower t) (dishonest_patterns eng) 95 [] = Inr (r, v')"
    and s: "s = max 0 r"
    by (auto simp: engine_analyze_integrity_def bindE_def split: sum.splits)
  from penalty_loop_Inr [OF this(1)] s t show ?thesis by blast
qed

lemma engine_analyze_ethics_Inr:
  assumes "engine_analyze_ethics eng text = Inr (s, v)"
  shows "\<exists>t strs. text = PStr t \<and> unethical_patterns eng = map PStr strs \<and>
           s = max 0 (100 - 20 * of_nat (hits strs (str_lower t)))"
proof -
  from assms obtain t where t: "text = PStr t"
    by (cases "text") (simp_all add: engine_analyze_ethics_def bindE_def)
  from assms t obtain r v' where
    "penalty_loop 20 ''unethical_pattern:'' (str_lower t) (unethical_patterns eng) 100 [] = Inr (r, v')"
    and s: "s = max 0 r"
    by (auto simp: engine_analyze_ethics_def bindE_def split: sum.splits)
  from penalty_loop_Inr [OF this(1)] s t show ?thesis by blast
qed

lemma engine_safety_range:
  "engine_analyze_safety eng text = Inr (s, v) \<Longrightarrow> 0 \<le> s \<and> s \<le> 100 \<and> s \<in> \<int>"
  using penalised_score [of s 100 15] by (auto dest!: engine_analyze_safety_Inr)

lemma engine_integrity_range:
  "engine_analyze_integrity eng text = Inr (s, v) \<Longrightarrow> 0 \<le> s \<and> s \<le> 100 \<and> s \<in> \<int>"
  using penalised_score [of s 95 15] by (auto dest!: engine_analyze_integrity_Inr)

lemma engine_ethics_range:
  "engine_analyze_ethics eng text = Inr (s, v) \<Longrightarrow> 0 \<le> s \<and> s \<le> 100 \<and> s \<in> \<int>"
  using penalised_score [of s 100 20] by (auto dest!: engine_analyze_ethics_Inr)

lemma engine_personalization_range:
  assumes "engine_analyze_personalization text context = Inr s"
  shows "80 \<le> s \<and> s \<le> 100 \<and> s \<in> \<int>"
proof -
  from assms obtain t where t: "text = PStr t"
    by (cases "text") (simp_all add: engine_analyze_personalization_def bindE_def)
  define n where "n = hits [''you'', ''your'', ''help'', ''assist'', ''would you like''] (str_lower t)"
  from assms obtain flag where "context_flag context ''user_preferences'' = Inr flag"
    and s: "s = min 100 (if flag then 80 + 4 * of_nat n + 5 else 80 + 4 * of_nat n)"
    unfolding t n_def
    by (auto simp: engine_analyze_personalization_def bindE_def Let_def bonus_loop_eq
             split: sum.splits)
  have "(0::rat) \<le> 4 * of_nat n" by simp
  moreover have "(80::rat) + 4 * of_nat n \<in> \<int>" "(80::rat) + 4 * of_nat n + 5 \<in> \<int>"
    by (simp_all add: Ints_add Ints_mult)
  ultimately show ?thesis unfolding s by (auto simp: Ints_min)
qed

lemma engine_analyze_logic_PStr:
  "engine_analyze_logic (PStr t) =
     Inr (max 0 (min 100
       (if length (str_strip t) < 10
        then 85 + 3 * of_nat (hits [''because'', ''therefore'', ''thus'', ''since'', ''based on''] (str_lower t)) - 20
        else 85 + 3 * of_nat (hits [''because'', ''therefore'', ''thus'', ''since'', ''based on''] (str_lower t)))))"
  by (simp add: engine_analyze_logic_def bindE_def bonus_loop_eq Let_def)

lemma engine_logic_range:
  assumes "engine_analyze_logic text = Inr s"
  shows "0 \<le> s \<and> s \<le> 100 \<and> s \<in> \<int>"
proof -
  from assms obtain t where t: "text = PStr t"
    by (cases "text") (simp_all add: engine_analyze_logic_def bindE_def)
  define n where "n = hits [''because'', ''therefore'', ''thus'', ''since'', ''based on''] (str_lower t)"
  have s: "s = max 0 (min 100 (if length (str_strip t) < 10 then 85 + 3 * of_nat n - 20 else 85 + 3 * of_nat n))"
    using assms unfolding t engine_analyze_logic_PStr n_def by (rule Inr_inject [THEN sym])
  have "(85::rat) + 3 * of_nat n \<in> \<int>" "(85::rat) + 3 * of_nat n - 20 \<in> \<int>"
    by (simp_all add: Ints_add Ints_mult Ints_diff)
  then show ?thesis unfolding s by (auto simp: Ints_min Ints_max)
qed

lemma engine_analyze_personalization_PStr:
  "engine_analyze_personalization (PStr t) (py_context c) =
     Inr (min 100
       (if truthy (py_context c) \<and> truthy (dict_get (the c) ''user_preferences'')
        then 80 + 4 * of_nat (hits [''you'', ''your'', ''help'', ''assist'', ''would you like''] (str_lower t)) + 5
        else 80 + 4 * of_nat (hits [''you'', ''your'', ''help'', ''assist'', ''would you like''] (str_lower t))))"
  by (cases c) (simp_all add: engine_analyze_personalization_def bindE_def bonus_loop_eq Let_def context_flag_def)

section \<open>\<open>enforce\<close> and its exception handler\<close>

lemma enforce_try_Inr:
  assumes "enforce_try eng text context st w = Inr (r, w')"
  shows "\<exists>sv iv ev.
     engine_analyze_safety eng text = Inr (safety_score r, sv) \<and>
     engine_analyze_personalization text context = Inr (personalization_score r) \<and>
     engine_analyze_integrity eng text = Inr (integrity_score r, iv) \<and>
     engine_analyze_ethics eng text = Inr (ethics_score r, ev) \<and>
     engine_analyze_logic text = Inr (logic_score r) \<and>
     composite_score r =
       (safety_score r + personalization_score r + integrity_score r
          + ethics_score r + logic_score r) / 5 \<and>
     determine_action eng (safety_score r) (personalization_score r) (integrity_score r)
       (ethics_score r) (logic_score r) (sv @ iv @ ev) = Inr (action r, reasoning r)"
  using assms
  by (auto simp: enforce_try_def bindE_def Let_def time_time_def split: sum.splits prod.splits)

lemma enforce_try_fault:
  "enforce_try eng text context st w = Inl e \<Longrightarrow> enforce_try eng text context st' w' = Inl e"
  by (auto simp: enforce_try_def bindE_def Let_def time_time_def split: sum.splits prod.splits)

lemma enforce_Inr_cases:
  assumes "fst (enforce eng text context w) = Inr r"
  shows "(\<exists>st w0 w'. enforce_try eng text context st w0 = Inr (r, w')) \<or>
         (action r = BLOCK \<and> safety_score r = 0 \<and> personalization_score r = 0 \<and>
          integrity_score r = 0 \<and> ethics_score r = 0 \<and> logic_score r = 0 \<and>
          composite_score r = 0)"
  using assms
  by (auto simp: enforce_def Let_def time_time_def split: sum.splits prod.splits if_splits)

lemma enforce_on_fault:
  assumes "enforce_try eng text context st w' = Inl e"
  shows "fst (enforce eng text context w) =
     (if truthy (fail_closed eng)
      then Inr \<lparr>action = BLOCK, safety_score = 0, personalization_score = 0,
                integrity_score = 0, ethics_score = 0, logic_score = 0,
                composite_score = 0, violations = [''system_error''],
                modifications = None,
                reasoning = [Txt ''Fail-closed triggered due to error: '', ExcStr e],
                processing_time_ms = (clock w 1 - clock w 0) * 1000,
                timestamp = clock w 2\<rparr>
      else Inl e)"
proof -
  have "enforce_try eng text context (clock w 0) (w\<lparr>clock := \<lambda>n. clock w (Suc n)\<rparr>) = Inl e"
    using assms by (rule enforce_try_fault)
  then show ?thesis
    by (simp add: enforce_def Let_def time_time_def logger_def numeral_2_eq_2)
qed

lemma enforce_on_success:
  assumes "enforce_try eng text context (clock w 0) (w\<lparr>clock := \<lambda>n. clock w (Suc n)\<rparr>) = Inr (r, w')"
  shows "fst (enforce eng text context w) = Inr r"
  using assms by (simp add: enforce_def Let_def time_time_def)

text \<open>
  Claim C1, as the code has it. \<open>enforce\<close> contains every exception when the policy's
  \<open>fail_closed\<close> flag is truthy, which is the default: it always returns a result, and
  when the \<open>try\<close> block raises \<open>e\<close> the result is \<open>BLOCK\<close> with the violation
  \<open>system_error\<close> and the reasoning "Fail-closed triggered due to error: e". When the
  flag is falsy the handler raises \<open>e\<close> again. Either way a fault never ends in a
  result that allows the text.
\<close>

theorem enforce_fail_closed:
  "(truthy (fail_closed eng) \<longrightarrow> (\<exists>r. fst (enforce eng text context w) = Inr r)) \<and>
   (enforce_try eng text context st w' = Inl e \<longrightarrow>
      (if truthy (fail_closed eng)
       then \<exists>r. fst (enforce eng text context w) = Inr r \<and> action r = BLOCK \<and>
                violations r = [''system_error''] \<and>
                reasoning r = [Txt ''Fail-closed triggered due to error: '', ExcStr e]
       else fst (enforce eng text context w) = Inl e))"
proof (intro conjI impI)
  assume fc: "truthy (fail_closed eng)"
  show "\<exists>r. fst (enforce eng text context w) = Inr r"
  proof (cases "enforce_try eng text context (clock w 0) (w\<lparr>clock := \<lambda>n. clock w (Suc n)\<rparr>)")
    case (Inl e')
    then show ?thesis using fc by (simp add: enforce_on_fault)
  next
    case (Inr p)
    then show ?thesis by (cases p) (simp add: enforce_on_success)
  qed
next
  assume "enforce_try eng text context st w' = Inl e"
  then show "if truthy (fail_closed eng)
       then \<exists>r. fst (enforce eng text context w) = Inr r \<and> action r = BLOCK \<and>
                violations r = [''system_error''] \<and>
                reasoning r = [Txt ''Fail-closed triggered due to error: '', ExcStr e]
       else fst (enforce eng text context w) = Inl e"
    by (simp add: enforce_on_fault)
qed

theorem enforce_fail_closed_witness:
  "truthy (fail_closed (default_policy\<lparr>harmful_patterns := [PNum 1]\<rparr>)) \<and>
   enforce_try (default_policy\<lparr>harmful_patterns := [PNum 1]\<rparr>) (PStr ''hello'') PNone 0
     \<lparr>clock = of_nat, hash_seed = 0, log_records = []\<rparr> = Inl (TypeError (PNum 1)) \<and>
   (\<exists>r. fst (enforce (default_policy\<lparr>harmful_patterns := [PNum 1]\<rparr>) (PStr ''hello'') PNone
              \<lparr>clock = of_nat, hash_seed = 0, log_records = []\<rparr>) = Inr r \<and>
        action r = BLOCK \<and> violations r = [''system_error''] \<and>
        reasoning r =
          [Txt ''Fail-closed triggered due to error: '', ExcStr (TypeError (PNum 1))])"
proof -
  have f: "enforce_try (default_policy\<lparr>harmful_patterns := [PNum 1]\<rparr>) (PStr ''hello'') PNone 0
     \<lparr>clock = of_nat, hash_seed = 0, log_records = []\<rparr> = Inl (TypeError (PNum 1))"
    by (simp add: enforce_try_def engine_analyze_safety_def bindE_def default_policy_def)
  have t: "truthy (fail_closed (default_policy\<lparr>harmful_patterns := [PNum 1]\<rparr>))"
    by (simp add: default_policy_def)
  show ?thesis
    using enforce_fail_closed [of "default_policy\<lparr>harmful_patterns := [PNum 1]\<rparr>"
        "PStr ''hello''" PNone "\<lparr>clock = of_nat, hash_seed = 0, log_records = []\<rparr>"
        0 "\<lparr>clock = of_nat, hash_seed = 0, log_records = []\<rparr>" "TypeError (PNum 1)"] f t
    by simp
qed

text \<open>
  The claim as stated, "for every text and every context \<open>enforce\<close> never propagates
  an exception", fails for an engine whose policy document sets \<open>fail_closed\<close> to
  false and lists a number among the harmful patterns: \<open>1 in text_lower\<close> raises
  \<open>TypeError\<close> and the handler raises it again.
\<close>

theorem enforce_propagates_counterexample:
  "fst (enforce (default_policy\<lparr>harmful_patterns := [PNum 1], fail_closed := PBool False\<rparr>)
         (PStr ''hello'') PNone \<lparr>clock = of_nat, hash_seed = 0, log_records = []\<rparr>)
     = Inl (TypeError (PNum 1))"
  by (simp add: enforce_def enforce_try_def engine_analyze_safety_def bindE_def
       default_policy_def time_time_def Let_def)

section \<open>The critical rule\<close>







lemma enforce_try_success:
  assumes "engine_analyze_safety eng text = Inr (s, sv)"
    and "engine_analyze_personalization text context = Inr p"
    and "engine_analyze_integrity eng text = Inr (i, iv)"
    and "engine_analyze_ethics eng text = Inr (e, ev)"
    and "engine_analyze_logic text = Inr l"
    and "determine_action eng s p i e l (sv @ iv @ ev) = Inr (a, rs)"
  shows "enforce_try eng text context st w =
     Inr (\<lparr>action = a, safety_score = s, personalization_score = p,
            integrity_score = i, ethics_score = e, logic_score = l,
            composite_score = (s + p + i + e + l) / 5,
            violations = sv @ iv @ ev, modifications = None, reasoning = rs,
            processing_time_ms = (clock w 0 - st) * 1000,
            timestamp = clock w 1\<rparr>,
          w\<lparr>clock := \<lambda>n. clock w (Suc (Suc n))\<rparr>)"
  by (simp add: enforce_try_def bindE_def assms Let_def time_time_def)





section \<open>The analyzers of the backend services\<close>

text \<open>The value a service function returns does not depend on the state it is run in.\<close>

lemma service_safety_value:
  "fst (service_analyze_safety svc t w) =
     max 0 (min 100 (100 - 15 * of_nat (hits (svc_harmful_patterns svc) (str_lower t))))"
  by (simp add: service_analyze_safety_def Let_def split_beta logged_penalty_loop_fst)

lemma service_integrity_value:
  "fst (service_analyze_integrity svc t w) =
     max 0 (95 - 15 * of_nat (hits (svc_dishonest_patterns svc) (str_lower t)))"
  by (simp add: service_analyze_integrity_def Let_def split_beta logged_penalty_loop_fst)

lemma service_ethics_value:
  "fst (service_analyze_ethics svc t w) =
     max 0 (100 - 20 * of_nat (hits (svc_unethical_patterns svc) (str_lower t)))"
  by (simp add: service_analyze_ethics_def Let_def split_beta logged_penalty_loop_fst)

lemma service_safety_range:
  "0 \<le> fst (service_analyze_safety svc t w) \<and> fst (service_analyze_safety svc t w) \<le> 100 \<and>
   fst (service_analyze_safety svc t w) \<in> \<int>"
proof -
  have "(100::rat) - 15 * of_nat (hits (svc_harmful_patterns svc) (str_lower t)) \<in> \<int>"
    by (simp add: Ints_diff Ints_mult)
  then show ?thesis
    unfolding service_safety_value by (auto simp: Ints_min Ints_max)
qed

lemma service_integrity_range:
  "0 \<le> fst (service_analyze_integrity svc t w) \<and> fst (service_analyze_integrity svc t w) \<le> 100 \<and>
   fst (service_analyze_integrity svc t w) \<in> \<int>"
  using penalised_score [of "fst (service_analyze_integrity svc t w)" 95 15]
  by (simp add: service_integrity_value)

lemma service_ethics_range:
  "0 \<le> fst (service_analyze_ethics svc t w) \<and> fst (service_analyze_ethics svc t w) \<le> 100 \<and>
   fst (service_analyze_ethics svc t w) \<in> \<int>"
  using penalised_score [of "fst (service_analyze_ethics svc t w)" 100 20]
  by (simp add: service_ethics_value)

lemma service_personalization_range:
  "80 \<le> service_analyze_personalization svc t c \<and>
   service_analyze_personalization svc t c \<le> 100 \<and>
   service_analyze_personalization svc t c \<in> \<int>"
proof -
  define n where "n = hits (svc_personal_markers svc) (str_lower t)"
  have i: "(80::rat) + 3 * of_nat n \<in> \<int>" by (simp add: Ints_add Ints_mult)
  then have j: "(80::rat) + 3 * of_nat n + 5 \<in> \<int>" "(80::rat) + 3 * of_nat n + 3 \<in> \<int>"
    "(80::rat) + 3 * of_nat n + 5 + 3 \<in> \<int>"
    by (simp_all add: Ints_add)
  have k: "(0::rat) \<le> 3 * of_nat n" by simp
  show ?thesis
    using i j k
    by (cases c)
       (auto simp: service_analyze_personalization_def Let_def bonus_loop_eq n_def [symmetric]
          Ints_min)
qed

lemma service_logic_range:
  "0 \<le> service_analyze_logic svc t \<and> service_analyze_logic svc t \<le> 100 \<and>
   service_analyze_logic svc t \<in> \<int>"
proof -
  define n where "n = hits (svc_logic_markers svc) (str_lower t)"
  have i: "(85::rat) + 3 * of_nat n \<in> \<int>" by (simp add: Ints_add Ints_mult)
  then have j: "(85::rat) + 3 * of_nat n - 20 \<in> \<int>" "(85::rat) + 3 * of_nat n - 15 \<in> \<int>"
    "(85::rat) + 3 * of_nat n - 20 - 15 \<in> \<int>"
    by (simp_all add: Ints_diff)
  show ?thesis
    using i j
    by (auto simp: service_analyze_logic_def Let_def bonus_loop_eq n_def [symmetric]
          Ints_min Ints_max)
qed

lemma analyze_fields:
  "safety (fst (analyze svc t c w)) = fst (service_analyze_safety svc t w1)"
  "personalization (fst (analyze svc t c w)) = service_analyze_personalization svc t c"
  "integrity (fst (analyze svc t c w)) = fst (service_analyze_integrity svc t w2)"
  "ethics (fst (analyze svc t c w)) = fst (service_analyze_ethics svc t w3)"
  "logic (fst (analyze svc t c w)) = service_analyze_logic svc t"
  "composite (fst (analyze svc t c w)) =
     (safety (fst (analyze svc t c w)) + personalization (fst (analyze svc t c w))
        + integrity (fst (analyze svc t c w)) + ethics (fst (analyze svc t c w))
        + logic (fst (analyze svc t c w))) / 5"
  by (simp_all add: analyze_def Let_def split_beta service_safety_value
        service_integrity_value service_ethics_value)

lemma analyze_world_independent: "fst (analyze svc t c w) = fst (analyze svc t c w')"
  by (simp add: analyze_def Let_def split_beta service_safety_value
        service_integrity_value service_ethics_value)

lemma first_match_loop_fst:
  "fst (first_match_loop f txt ps w) = (\<not> list_ex (\<lambda>p. str_in p txt) ps)"
  by (induction ps) simp_all

lemma verify_transparency_fst:
  "fst (verify_transparency svc t w) =
     (list_ex (\<lambda>p. str_in p (str_lower t)) (claim_patterns svc) \<longrightarrow>
        length t < 50 \<or> list_ex (\<lambda>m. str_in m (str_lower t)) (transparent_markers svc))"
  by (simp add: verify_transparency_def Let_def)

lemma validate_world_independent: "fst (validate svc t c w) = fst (validate svc t c w')"
  by (simp add: validate_def Let_def split_beta verify_truth_def verify_honesty_def
        first_match_loop_fst verify_transparency_fst)

lemma validate_transparency:
  "transparency_verified (fst (validate svc t c w)) = fst (verify_transparency svc t w')"
  by (simp add: validate_def Let_def split_beta verify_transparency_fst)

section \<open>The scores of a result\<close>

lemma enforce_scores:
  assumes "fst (enforce eng text context w) = Inr r"
  shows "0 \<le> safety_score r \<and> safety_score r \<le> 100 \<and> safety_score r \<in> \<int>"
    "0 \<le> personalization_score r \<and> personalization_score r \<le> 100 \<and> personalization_score r \<in> \<int>"
    "0 \<le> integrity_score r \<and> integrity_score r \<le> 100 \<and> integrity_score r \<in> \<int>"
    "0 \<le> ethics_score r \<and> ethics_score r \<le> 100 \<and> ethics_score r \<in> \<int>"
    "0 \<le> logic_score r \<and> logic_score r \<le> 100 \<and> logic_score r \<in> \<int>"
    "composite_score r =
       (safety_score r + personalization_score r + integrity_score r
          + ethics_score r + logic_score r) / 5"
proof -
  from enforce_Inr_cases [OF assms]
  consider (ok) st w0 w' where "enforce_try eng text context st w0 = Inr (r, w')"
    | (blocked) "safety_score r = 0" "personalization_score r = 0" "integrity_score r = 0"
        "ethics_score r = 0" "logic_score r = 0" "composite_score r = 0"
    by blast
  then have "(0 \<le> safety_score r \<and> safety_score r \<le> 100 \<and> safety_score r \<in> \<int>) \<and>
    (0 \<le> personalization_score r \<and> personalization_score r \<le> 100 \<and> personalization_score r \<in> \<int>) \<and>
    (0 \<le> integrity_score r \<and> integrity_score r \<le> 100 \<and> integrity_score r \<in> \<int>) \<and>
    (0 \<le> ethics_score r \<and> ethics_score r \<le> 100 \<and> ethics_score r \<in> \<int>) \<and>
    (0 \<le> logic_score r \<and> logic_score r \<le> 100 \<and> logic_score r \<in> \<int>) \<and>
    composite_score r =
       (safety_score r + personalization_score r + integrity_score r
          + ethics_score r + logic_score r) / 5"
  proof cases
    case ok
    from enforce_try_Inr [OF ok] obtain sv iv ev where
      a: "engine_analyze_safety eng text = Inr (safety_score r, sv)"
      and b: "engine_analyze_personalization text context = Inr (personalization_score r)"
      and c: "engine_analyze_integrity eng text = Inr (integrity_score r, iv)"
      and d: "engine_analyze_ethics eng text = Inr (ethics_score r, ev)"
      and e: "engine_analyze_logic text = Inr (logic_score r)"
      and f: "composite_score r =
       (safety_score r + personalization_score r + integrity_score r
          + ethics_score r + logic_score r) / 5"
      by blast
    have "80 \<le> personalization_score r" using engine_personalization_range [OF b] by simp
    then have "0 \<le> personalization_score r" by linarith
    then show ?thesis
      using engine_safety_range [OF a] engine_personalization_range [OF b]
        engine_integrity_range [OF c] engine_ethics_range [OF d] engine_logic_range [OF e] f
      by blast
  next
    case blocked
    then show ?thesis by simp
  qed
  then show "0 \<le> safety_score r \<and> safety_score r \<le> 100 \<and> safety_score r \<in> \<int>"
    "0 \<le> personalization_score r \<and> personalization_score r \<le> 100 \<and> personalization_score r \<in> \<int>"
    "0 \<le> integrity_score r \<and> integrity_score r \<le> 100 \<and> integrity_score r \<in> \<int>"
    "0 \<le> ethics_score r \<and> ethics_score r \<le> 100 \<and> ethics_score r \<in> \<int>"
    "0 \<le> logic_score r \<and> logic_score r \<le> 100 \<and> logic_score r \<in> \<int>"
    "composite_score r =
       (safety_score r + personalization_score r + integrity_score r
          + ethics_score r + logic_score r) / 5"
    by blast+
qed

text \<open>
  Claim C4. Whatever the policy, the text and the context are, each of the five
  dimension scores of a result that \<open>enforce\<close> returns lies in \<open>[0, 100]\<close> (on the
  fail-closed path all five are 0), and so does each of the five scores that the
  backend's \<open>analyze\<close> returns.
\<close>

theorem dimension_scores_in_range:
  "(fst (enforce eng text context w) = Inr r \<longrightarrow>
      0 \<le> safety_score r \<and> safety_score r \<le> 100 \<and>
      0 \<le> personalization_score r \<and> personalization_score r \<le> 100 \<and>
      0 \<le> integrity_score r \<and> integrity_score r \<le> 100 \<and>
      0 \<le> ethics_score r \<and> ethics_score r \<le> 100 \<and>
      0 \<le> logic_score r \<and> logic_score r \<le> 100) \<and>
   0 \<le> safety (fst (analyze svc t c w')) \<and> safety (fst (analyze svc t c w')) \<le> 100 \<and>
   0 \<le> personalization (fst (analyze svc t c w')) \<and>
     personalization (fst (analyze svc t c w')) \<le> 100 \<and>
   0 \<le> integrity (fst (analyze svc t c w')) \<and> integrity (fst (analyze svc t c w')) \<le> 100 \<and>
   0 \<le> ethics (fst (analyze svc t c w')) \<and> ethics (fst (analyze svc t c w')) \<le> 100 \<and>
   0 \<le> logic (fst (analyze svc t c w')) \<and> logic (fst (analyze svc t c w')) \<le> 100"
proof -
  have "80 \<le> service_analyze_personalization svc t c"
    using service_personalization_range [of svc t c] by simp
  then have p: "0 \<le> service_analyze_personalization svc t c" by linarith
  show ?thesis
    using enforce_scores(1-5) [of eng "text" "context" w r]
      service_safety_range [of svc t w'] service_personalization_range [of svc t c]
      service_integrity_range [of svc t w'] service_ethics_range [of svc t w']
      service_logic_range [of svc t] p
    unfolding analyze_fields(1) [of svc t c w' w'] analyze_fields(2)
      analyze_fields(3) [of svc t c w' w'] analyze_fields(4) [of svc t c w' w'] analyze_fields(5)
    by blast
qed

section \<open>The composite score\<close>

lemma round_fifth:
  assumes "k \<in> \<int>" "1 \<le> d"
  shows "round_to_decimals d (k / 5) = k / 5"
proof -
  from assms(1) obtain n where n: "k = of_int n" by (rule Ints_cases)
  from assms(2) obtain m where m: "d = Suc m" by (cases d) simp_all
  have "k / 5 * 10 ^ d = of_int (n * 2 * 10 ^ m)"
    by (simp add: n m)
  then have "round (k / 5 * 10 ^ d) = n * 2 * 10 ^ m"
    by (simp only: round_of_int)
  then have "round_to_decimals d (k / 5) = of_int (n * 2 * 10 ^ m) / 10 ^ d"
    by (simp add: round_to_decimals_def)
  also have "\<dots> = k / 5"
    by (simp add: n m)
  finally show ?thesis .
qed

lemma mean5_bounds:
  fixes a b c d e :: rat
  shows "min a (min b (min c (min d e))) \<le> (a + b + c + d + e) / 5"
    and "(a + b + c + d + e) / 5 \<le> max a (max b (max c (max d e)))"
proof -
  define lo where "lo = min a (min b (min c (min d e)))"
  define hi where "hi = max a (max b (max c (max d e)))"
  have "lo \<le> a" "lo \<le> b" "lo \<le> c" "lo \<le> d" "lo \<le> e"
    by (simp_all add: lo_def min_le_iff_disj)
  then have "5 * lo \<le> a + b + c + d + e" by linarith
  then show "min a (min b (min c (min d e))) \<le> (a + b + c + d + e) / 5"
    unfolding lo_def [symmetric] by simp
  have "a \<le> hi" "b \<le> hi" "c \<le> hi" "d \<le> hi" "e \<le> hi"
    by (simp_all add: hi_def le_max_iff_disj)
  then have "a + b + c + d + e \<le> 5 * hi" by linarith
  then show "(a + b + c + d + e) / 5 \<le> max a (max b (max c (max d e)))"
    unfolding hi_def [symmetric] by simp
qed

lemma analyze_sum_Ints:
  "safety (fst (analyze svc t c w)) + personalization (fst (analyze svc t c w))
     + integrity (fst (analyze svc t c w)) + ethics (fst (analyze svc t c w))
     + logic (fst (analyze svc t c w)) \<in> \<int>"
proof -
  have "safety (fst (analyze svc t c w)) \<in> \<int>"
    using service_safety_range [of svc t w] by (simp only: analyze_fields(1) [of svc t c w w])
  moreover have "personalization (fst (analyze svc t c w)) \<in> \<int>"
    using service_personalization_range [of svc t c] by (simp only: analyze_fields(2))
  moreover have "integrity (fst (analyze svc t c w)) \<in> \<int>"
    using service_integrity_range [of svc t w] by (simp only: analyze_fields(3) [of svc t c w w])
  moreover have "ethics (fst (analyze svc t c w)) \<in> \<int>"
    using service_ethics_range [of svc t w] by (simp only: analyze_fields(4) [of svc t c w w])
  moreover have "logic (fst (analyze svc t c w)) \<in> \<int>"
    using service_logic_range [of svc t] by (simp only: analyze_fields(5))
  ultimately show ?thesis by (intro Ints_add)
qed

lemma enforce_composite:
  assumes h: "fst (enforce eng text context w) = Inr r"
  shows "composite_score r =
        (safety_score r + personalization_score r + integrity_score r
           + ethics_score r + logic_score r) / 5 \<and>
      (1 \<le> d \<longrightarrow>
         composite_score r =
           round_to_decimals d
             ((safety_score r + personalization_score r + integrity_score r
                 + ethics_score r + logic_score r) / 5)) \<and>
      min (safety_score r) (min (personalization_score r) (min (integrity_score r)
        (min (ethics_score r) (logic_score r)))) \<le> composite_score r \<and>
      composite_score r \<le>
        max (safety_score r) (max (personalization_score r) (max (integrity_score r)
          (max (ethics_score r) (logic_score r))))"
proof -
  note s = enforce_scores [OF h]
  have "safety_score r + personalization_score r + integrity_score r
         + ethics_score r + logic_score r \<in> \<int>"
    using s(1-5) by (intro Ints_add) simp_all
  then have rd: "1 \<le> d \<longrightarrow>
         (safety_score r + personalization_score r + integrity_score r
               + ethics_score r + logic_score r) / 5 =
         round_to_decimals d
           ((safety_score r + personalization_score r + integrity_score r
               + ethics_score r + logic_score r) / 5)"
    by (simp add: round_fifth)
  show ?thesis
    unfolding s(6) by (intro conjI refl rd mean5_bounds)
qed

lemma analyze_composite:
  "composite (fst (analyze svc t c w)) =
     (safety (fst (analyze svc t c w)) + personalization (fst (analyze svc t c w))
        + integrity (fst (analyze svc t c w)) + ethics (fst (analyze svc t c w))
        + logic (fst (analyze svc t c w))) / 5 \<and>
   (1 \<le> d \<longrightarrow>
      composite (fst (analyze svc t c w)) =
        round_to_decimals d
          ((safety (fst (analyze svc t c w)) + personalization (fst (analyze svc t c w))
              + integrity (fst (analyze svc t c w)) + ethics (fst (analyze svc t c w))
              + logic (fst (analyze svc t c w))) / 5)) \<and>
   min (safety (fst (analyze svc t c w))) (min (personalization (fst (analyze svc t c w)))
     (min (integrity (fst (analyze svc t c w))) (min (ethics (fst (analyze svc t c w)))
       (logic (fst (analyze svc t c w)))))) \<le> composite (fst (analyze svc t c w)) \<and>
   composite (fst (analyze svc t c w)) \<le>
     max (safety (fst (analyze svc t c w))) (max (personalization (fst (analyze svc t c w)))
       (max (integrity (fst (analyze svc t c w))) (max (ethics (fst (analyze svc t c w)))
         (logic (fst (analyze svc t c w))))))"
proof -
  define a where "a = fst (analyze svc t c w)"
  have ints: "safety a + personalization a + integrity a + ethics a + logic a \<in> \<int>"
    unfolding a_def by (rule analyze_sum_Ints)
  have comp: "composite a = (safety a + personalization a + integrity a + ethics a + logic a) / 5"
    unfolding a_def by (rule analyze_fields(6))
  have rnd: "1 \<le> d \<longrightarrow>
      (safety a + personalization a + integrity a + ethics a + logic a) / 5 =
      round_to_decimals d
        ((safety a + personalization a + integrity a + ethics a + logic a) / 5)"
    using ints by (simp add: round_fifth)
  have "composite a =
     (safety a + personalization a + integrity a + ethics a + logic a) / 5 \<and>
   (1 \<le> d \<longrightarrow> composite a =
        round_to_decimals d ((safety a + personalization a + integrity a + ethics a + logic a) / 5)) \<and>
   min (safety a) (min (personalization a) (min (integrity a) (min (ethics a) (logic a))))
     \<le> composite a \<and>
   composite a \<le>
     max (safety a) (max (personalization a) (max (integrity a) (max (ethics a) (logic a))))"
    unfolding comp by (intro conjI refl rnd mean5_bounds)
  then show ?thesis unfolding a_def .
qed

text \<open>
  Claim C5. The composite score of a result of \<open>enforce\<close>, and of a result of the
  backend's \<open>analyze\<close>, is the sum of the five dimension scores divided by five. The
  five scores are whole numbers, so this mean is a multiple of 0.2 and rounding it to
  any number \<open>d \<ge> 1\<close> of decimal places gives the same value: the composite score is
  the mean rounded to a fixed decimal precision. It lies between the least and the
  greatest of the five scores.
\<close>

theorem composite_is_rounded_mean:
  "(fst (enforce eng text context w) = Inr r \<longrightarrow>
      composite_score r =
        (safety_score r + personalization_score r + integrity_score r
           + ethics_score r + logic_score r) / 5 \<and>
      (1 \<le> d \<longrightarrow>
         composite_score r =
           round_to_decimals d
             ((safety_score r + personalization_score r + integrity_score r
                 + ethics_score r + logic_score r) / 5)) \<and>
      min (safety_score r) (min (personalization_score r) (min (integrity_score r)
        (min (ethics_score r) (logic_score r)))) \<le> composite_score r \<and>
      composite_score r \<le>
        max (safety_score r) (max (personalization_score r) (max (integrity_score r)
          (max (ethics_score r) (logic_score r))))) \<and>
   composite (fst (analyze svc t c w')) =
     (safety (fst (analyze svc t c w')) + personalization (fst (analyze svc t c w'))
        + integrity (fst (analyze svc t c w')) + ethics (fst (analyze svc t c w'))
        + logic (fst (analyze svc t c w'))) / 5 \<and>
   (1 \<le> d \<longrightarrow>
      composite (fst (analyze svc t c w')) =
        round_to_decimals d
          ((safety (fst (analyze svc t c w')) + personalization (fst (analyze svc t c w'))
              + integrity (fst (analyze svc t c w')) + ethics (fst (analyze svc t c w'))
              + logic (fst (analyze svc t c w'))) / 5)) \<and>
   min (safety (fst (analyze svc t c w'))) (min (personalization (fst (analyze svc t c w')))
     (min (integrity (fst (analyze svc t c w'))) (min (ethics (fst (analyze svc t c w')))
       (logic (fst (analyze svc t c w')))))) \<le> composite (fst (analyze svc t c w')) \<and>
   composite (fst (analyze svc t c w')) \<le>
     max (safety (fst (analyze svc t c w'))) (max (personalization (fst (analyze svc t c w')))
       (max (integrity (fst (analyze svc t c w'))) (max (ethics (fst (analyze svc t c w')))
         (logic (fst (analyze svc t c w'))))))"
  (is "(?H \<longrightarrow> ?E) \<and> ?S")
proof (rule conjI)
  show "?H \<longrightarrow> ?E" by (rule impI) (rule enforce_composite)
  show ?S by (rule analyze_composite)
qed

section \<open>Determinism of the backend services\<close>

text \<open>
  Claim C6. The result of the backend's \<open>analyze\<close> (the five dimension scores, the
  composite score and the rest of the dictionary) and the result of \<open>validate\<close> (the
  three checks, the confidence and the rest) are the same in any two states of the
  clock, the hash seed and the log: for given service, text and context they are
  functions of these alone. In particular a second call, run in the state the first
  call has left, returns what the first call returned.
\<close>

theorem scoring_independent_of_state:
  "fst (analyze svc t c w) = fst (analyze svc t c w') \<and>
   fst (validate tht t c w) = fst (validate tht t c w') \<and>
   fst (analyze svc t c (snd (analyze svc t c w))) = fst (analyze svc t c w) \<and>
   fst (validate tht t c (snd (validate tht t c w))) = fst (validate tht t c w)"
  by (intro conjI analyze_world_independent validate_world_independent)

section \<open>The scores of one evaluation\<close>

lemma enforce_example:
  "fst (enforce default_policy (PStr ''help me because'') PNone
          \<lparr>clock = of_nat, hash_seed = 0, log_records = []\<rparr>) =
     Inr \<lparr>action = ALLOW, safety_score = 100, personalization_score = 84,
           integrity_score = 95, ethics_score = 100, logic_score = 88,
           composite_score = 467 / 5, violations = [], modifications = None,
           reasoning = [Txt ''All SPIEL criteria passed''],
           processing_time_ms = 1000, timestamp = 2\<rparr>"
proof -
  have lo: "str_lower ''help me because'' = ''help me because''"
    by (simp add: str_lower_def lower_char_def)
  have st: "length (str_strip ''help me because'') = 15"
    by (simp add: str_strip_def isspace_def)
  have sa: "engine_analyze_safety default_policy (PStr ''help me because'') = Inr (100, [])"
    by (simp add: engine_analyze_safety_def bindE_def default_policy_def lo
          str_in_def sublist_Cons_right)
  have ia: "engine_analyze_integrity default_policy (PStr ''help me because'') = Inr (95, [])"
    by (simp add: engine_analyze_integrity_def bindE_def default_policy_def lo
          str_in_def sublist_Cons_right)
  have ea: "engine_analyze_ethics default_policy (PStr ''help me because'') = Inr (100, [])"
    by (simp add: engine_analyze_ethics_def bindE_def default_policy_def lo
          str_in_def sublist_Cons_right)
  have pa: "engine_analyze_personalization (PStr ''help me because'') PNone = Inr 84"
    by (simp add: engine_analyze_personalization_def bindE_def context_flag_def lo
          str_in_def sublist_Cons_right)
  have la: "engine_analyze_logic (PStr ''help me because'') = Inr 88"
    by (simp add: engine_analyze_logic_def bindE_def lo st str_in_def sublist_Cons_right)
  have da: "determine_action default_policy 100 84 95 100 88 ([] @ [] @ []) =
      Inr (ALLOW, [Txt ''All SPIEL criteria passed''])"
    by (simp add: determine_action_def default_policy_def bindE_def)
  note et = enforce_try_success [OF sa pa ia ea la da]
  show ?thesis
    by (simp add: enforce_on_success [OF et])
qed

theorem dimension_scores_in_range_witness:
  "fst (enforce default_policy (PStr ''help me because'') PNone
          \<lparr>clock = of_nat, hash_seed = 0, log_records = []\<rparr>) =
     Inr \<lparr>action = ALLOW, safety_score = 100, personalization_score = 84,
           integrity_score = 95, ethics_score = 100, logic_score = 88,
           composite_score = 467 / 5, violations = [], modifications = None,
           reasoning = [Txt ''All SPIEL criteria passed''],
           processing_time_ms = 1000, timestamp = 2\<rparr> \<and>
   (0::rat) \<le> 100 \<and> (100::rat) \<le> 100 \<and> (0::rat) \<le> 84 \<and> (84::rat) \<le> 100 \<and>
   (0::rat) \<le> 95 \<and> (95::rat) \<le> 100 \<and> (0::rat) \<le> 88 \<and> (88::rat) \<le> 100"
  using enforce_example
    dimension_scores_in_range [of default_policy "PStr ''help me because''" PNone
      "\<lparr>clock = of_nat, hash_seed = 0, log_records = []\<rparr>"
      "\<lparr>action = ALLOW, safety_score = 100, personalization_score = 84,
           integrity_score = 95, ethics_score = 100, logic_score = 88,
           composite_score = 467 / 5, violations = [], modifications = None,
           reasoning = [Txt ''All SPIEL criteria passed''],
           processing_time_ms = 1000, timestamp = 2\<rparr>"]
  by simp

theorem composite_is_rounded_mean_witness:
  "fst (enforce default_policy (PStr ''help me because'') PNone
          \<lparr>clock = of_nat, hash_seed = 0, log_records = []\<rparr>) =
     Inr \<lparr>action = ALLOW, safety_score = 100, personalization_score = 84,
           integrity_score = 95, ethics_score = 100, logic_score = 88,
           composite_score = 467 / 5, violations = [], modifications = None,
           reasoning = [Txt ''All SPIEL criteria passed''],
           processing_time_ms = 1000, timestamp = 2\<rparr> \<and>
   (1::nat) \<le> 2 \<and>
   (467 / 5 :: rat) = (100 + 84 + 95 + 100 + 88) / 5 \<and>
   (467 / 5 :: rat) = round_to_decimals 2 ((100 + 84 + 95 + 100 + 88) / 5) \<and>
   min 100 (min 84 (min 95 (min 100 88))) \<le> (467 / 5 :: rat) \<and>
   (467 / 5 :: rat) \<le> max 100 (max 84 (max 95 (max 100 88)))"
  using enforce_example
    composite_is_rounded_mean [of default_policy "PStr ''help me because''" PNone
      "\<lparr>clock = of_nat, hash_seed = 0, log_records = []\<rparr>"
      "\<lparr>action = ALLOW, safety_score = 100, personalization_score = 84,
           integrity_score = 95, ethics_score = 100, logic_score = 88,
           composite_score = 467 / 5, violations = [], modifications = None,
           reasoning = [Txt ''All SPIEL criteria passed''],
           processing_time_ms = 1000, timestamp = 2\<rparr>" 2]
  by simp

section \<open>The two models of the safety analyzers agree\<close>

text \<open>
  On the strings of code points below 256, and with the tables of the character
  database, the lowering and the safety analyzers over arbitrary code points are the
  ones of the model over \<open>string\<close>.
\<close>

lemma to_lower_full_latin1:
  "to_lower_full unicode_tables (of_char c) = [of_char (lower_char c)]"
proof -
  define n where "n = (of_char c :: nat)"
  have l: "n < 256" by (simp add: n_def)
  have "to_lower_full unicode_tables n =
      [if (65 \<le> n \<and> n \<le> 90) \<or> (192 \<le> n \<and> n \<le> 222 \<and> n \<noteq> 215) then n + 32 else n]"
    using l by (auto simp: unicode_tables_def)
  moreover have "(of_char (lower_char c) :: nat) =
      (if (65 \<le> n \<and> n \<le> 90) \<or> (192 \<le> n \<and> n \<le> 222 \<and> n \<noteq> 215) then n + 32 else n)"
    using l by (auto simp: lower_char_def Let_def n_def [symmetric])
  ultimately show ?thesis by (simp add: n_def)
qed

lemma lower_loop_code_points:
  "lower_loop unicode_tables b (code_points s) = code_points (str_lower s)"
proof (induction s arbitrary: b)
  case Nil
  show ?case by (simp add: code_points_def str_lower_def)
next
  case (Cons c s)
  have "of_char c < (256::nat)" by simp
  then have "of_char c \<noteq> (931::nat)" by linarith
  then show ?case
    using Cons.IH [of "of_char c # b"]
    by (simp add: code_points_def str_lower_def to_lower_full_latin1)
qed

lemma unicode_lower_code_points:
  "unicode_lower unicode_tables (code_points s) = code_points (str_lower s)"
  by (simp add: unicode_lower_def lower_loop_code_points)

lemma sublist_code_points: "sublist (code_points p) (code_points t) = str_in p t"
proof
  assume "sublist (code_points p) (code_points t)"
  then obtain p' where p': "sublist p' t" and e: "code_points p = map of_char p'"
    unfolding code_points_def by (auto dest: sublist_map_rightE)
  have "inj (of_char :: char \<Rightarrow> nat)" by (rule inj_of_char)
  with e have "p = p'" by (simp add: code_points_def inj_map_eq_map)
  with p' show "str_in p t" by (simp add: str_in_def)
next
  assume "str_in p t"
  then show "sublist (code_points p) (code_points t)"
    unfolding code_points_def str_in_def by (rule map_mono_sublist)
qed

lemma unicode_penalty_loop_code_points:
  "unicode_penalty_loop pen (code_points lab) (code_points txt) (map upattern_of ps) s
     (map code_points v) =
   (case penalty_loop pen lab txt ps s v of
      Inl e \<Rightarrow> Inl e
    | Inr (r, vr) \<Rightarrow> Inr (r, map code_points vr))"
proof (induction ps arbitrary: s v)
  case Nil
  show ?case by simp
next
  case (Cons a ps)
  show ?case
  proof (cases a)
    case (PStr q)
    have "code_points lab @ code_points q = code_points (lab @ q)"
      by (simp add: code_points_def)
    then show ?thesis
      using Cons.IH [of "s - pen" "v @ [lab @ q]"] Cons.IH [of s v] PStr
      by (simp add: sublist_code_points)
  qed simp_all
qed

lemma unicode_engine_analyze_safety_code_points:
  "unicode_engine_analyze_safety unicode_tables (map upattern_of (harmful_patterns eng))
     (code_points t) =
   (case engine_analyze_safety eng (PStr t) of
      Inl e \<Rightarrow> Inl e
    | Inr (s, v) \<Rightarrow> Inr (s, map code_points v))"
  using unicode_penalty_loop_code_points [of 15 "''harmful_pattern:''" "str_lower t"
      "harmful_patterns eng" 100 "[]"]
  by (simp add: unicode_engine_analyze_safety_def engine_analyze_safety_def bindE_def
        unicode_lower_code_points split: sum.splits)

lemma unicode_logged_penalty_loop_code_points:
  "unicode_logged_penalty_loop pen f (code_points txt) ps s w =
   logged_penalty_loop pen f txt ps s w"
  by (induction ps arbitrary: s w) (simp_all add: sublist_code_points)

lemma unicode_service_analyze_safety_code_points:
  "unicode_service_analyze_safety unicode_tables svc (code_points t) w =
   service_analyze_safety svc t w"
  by (simp add: unicode_service_analyze_safety_def service_analyze_safety_def
        unicode_lower_code_points unicode_logged_penalty_loop_code_points)

section \<open>Monotonicity of the safety score\<close>

text \<open>
  Appending to a text changes the lowering of what was there in one way only: a
  final sigma may become a small sigma.
\<close>

lemma final_sigma_shorter: "final_sigma U b (t @ p) \<Longrightarrow> final_sigma U b t"
proof (cases "dropWhile (is_case_ignorable U) t")
  case Nil
  assume "final_sigma U b (t @ p)"
  then show ?thesis using Nil by (simp add: final_sigma_def del: dropWhile_eq_Nil_conv)
next
  case (Cons c cs)
  assume f: "final_sigma U b (t @ p)"
  from Cons have "dropWhile (is_case_ignorable U) (t @ p) = (c # cs) @ p"
    by (metis dropWhile_append dropWhile_eq_Nil_conv list.distinct(1))
  with f Cons show ?thesis by (simp add: final_sigma_def)
qed

lemma lower_loop_append:
  "\<exists>xs. lower_loop U b (t @ p) = xs @ lower_loop U (rev t @ b) p \<and>
        list_all2 (\<lambda>x y. x = y \<or> (x = 962 \<and> y = 963)) (lower_loop U b t) xs"
proof (induction t arbitrary: b)
  case Nil
  show ?case by simp
next
  case (Cons c t)
  let ?R = "\<lambda>x y :: nat. x = y \<or> (x = 962 \<and> y = 963)"
  from Cons.IH [of "c # b"] obtain xs where
    xs: "lower_loop U (c # b) (t @ p) = xs @ lower_loop U (rev t @ c # b) p"
    and r: "list_all2 ?R (lower_loop U (c # b) t) xs"
    by blast
  define o1 where "o1 = (if c = 931 then [if final_sigma U b t then 962 else 963]
      else to_lower_full U c)"
  define o2 where "o2 = (if c = 931 then [if final_sigma U b (t @ p) then 962 else 963]
      else to_lower_full U c)"
  have o: "list_all2 ?R o1 o2"
  proof (cases "c = 931")
    case True
    then show ?thesis
      using final_sigma_shorter [of U b t p] by (auto simp: o1_def o2_def)
  next
    case False
    then have "o1 = o2" by (simp add: o1_def o2_def)
    then show ?thesis by (simp add: list_all2_refl)
  qed
  have "lower_loop U b ((c # t) @ p) = (o2 @ xs) @ lower_loop U (rev (c # t) @ b) p"
    using xs by (simp add: o2_def)
  moreover have "list_all2 ?R (lower_loop U b (c # t)) (o2 @ xs)"
    using o r by (simp add: o1_def [symmetric] list_all2_appendI)
  ultimately show ?case by blast
qed

lemma sublist_kept:
  assumes r: "list_all2 (\<lambda>x y. x = y \<or> (x = 962 \<and> y = 963)) xs ys"
    and q: "sublist q xs" and n: "(962::nat) \<notin> set q"
  shows "sublist q ys"
proof -
  from q obtain as bs where xs: "xs = as @ q @ bs" by (auto simp: sublist_def)
  from r [unfolded xs] obtain as' rest where
    ys: "ys = as' @ rest" and "list_all2 (\<lambda>x y. x = y \<or> (x = 962 \<and> y = 963)) (q @ bs) rest"
    by (auto simp: list_all2_append1)
  then obtain q' bs' where rest: "rest = q' @ bs'"
    and qq: "list_all2 (\<lambda>x y. x = y \<or> (x = 962 \<and> y = 963)) q q'"
    by (auto simp: list_all2_append1)
  from qq have "list_all2 (=) q q'"
    by (rule list.rel_mono_strong) (use n in auto)
  then have "q' = q" by (simp add: list.rel_eq)
  then show ?thesis using ys rest by (auto simp: sublist_def)
qed

lemma unicode_match_append:
  assumes "(962::nat) \<notin> set q" "sublist q (unicode_lower U t)"
  shows "sublist q (unicode_lower U (t @ p))"
proof -
  from lower_loop_append [of U "[]" t p] obtain xs where
    a: "unicode_lower U (t @ p) = xs @ lower_loop U (rev t) p"
    and r: "list_all2 (\<lambda>x y. x = y \<or> (x = 962 \<and> y = 963)) (unicode_lower U t) xs"
    by (auto simp: unicode_lower_def)
  have "sublist q xs" using r assms(2,1) by (rule sublist_kept)
  then show ?thesis unfolding a by (auto simp: sublist_append)
qed

lemma unicode_penalty_loop_mono:
  assumes "\<And>q. UStr q \<in> set ps \<Longrightarrow> sublist q txt \<Longrightarrow> sublist q txt'"
    and "0 \<le> pen" and "s' \<le> s"
    and "unicode_penalty_loop pen lab txt ps s v = Inr (r, vr)"
  shows "\<exists>r' vr'. unicode_penalty_loop pen lab txt' ps s' v' = Inr (r', vr') \<and> r' \<le> r"
  using assms
proof (induction ps arbitrary: s s' v v')
  case Nil
  then show ?case by simp
next
  case (Cons a ps)
  from Cons.prems(4) obtain q where a: "a = UStr q" by (cases a) simp_all
  have m: "\<And>q. UStr q \<in> set ps \<Longrightarrow> sublist q txt \<Longrightarrow> sublist q txt'"
    using Cons.prems(1) by simp
  show ?case
  proof (cases "sublist q txt")
    case True
    then have t': "sublist q txt'" using Cons.prems(1) a by simp
    from Cons.prems(4) True a
    have "unicode_penalty_loop pen lab txt ps (s - pen) (v @ [lab @ q]) = Inr (r, vr)" by simp
    moreover have "s' - pen \<le> s - pen" using Cons.prems(3) by simp
    ultimately show ?thesis
      using Cons.IH [OF m Cons.prems(2), of "s' - pen" "s - pen" "v @ [lab @ q]" "v' @ [lab @ q]"]
        a t' by simp
  next
    case False
    with Cons.prems(4) a have l: "unicode_penalty_loop pen lab txt ps s v = Inr (r, vr)" by simp
    show ?thesis
    proof (cases "sublist q txt'")
      case True
      have "s' - pen \<le> s" using Cons.prems(2,3) by linarith
      then show ?thesis
        using Cons.IH [OF m Cons.prems(2) _ l, of "s' - pen" "v' @ [lab @ q]"] a True by simp
    next
      case False
      then show ?thesis
        using Cons.IH [OF m Cons.prems(2,3) l, of v'] a by simp
    qed
  qed
qed

lemma unicode_logged_penalty_loop_mono:
  assumes "\<And>q. q \<in> set ps \<Longrightarrow> sublist (code_points q) txt \<Longrightarrow> sublist (code_points q) txt'"
    and "0 \<le> pen" and "s' \<le> s"
  shows "fst (unicode_logged_penalty_loop pen f txt' ps s' w') \<le>
         fst (unicode_logged_penalty_loop pen f txt ps s w)"
  using assms
proof (induction ps arbitrary: s s' w w')
  case Nil
  then show ?case by simp
next
  case (Cons q ps)
  have m: "\<And>q. q \<in> set ps \<Longrightarrow> sublist (code_points q) txt \<Longrightarrow> sublist (code_points q) txt'"
    using Cons.prems(1) by simp
  have i: "sublist (code_points q) txt \<Longrightarrow> sublist (code_points q) txt'"
    using Cons.prems(1) by simp
  have a: "s' - pen \<le> s - pen" and b: "s' - pen \<le> s"
    using Cons.prems(2,3) by linarith+
  show ?case
    using Cons.IH [OF m Cons.prems(2) a] Cons.IH [OF m Cons.prems(2) b]
      Cons.IH [OF m Cons.prems(2,3)] i
    by auto
qed

lemma code_points_no_final_sigma: "(962::nat) \<notin> set (code_points q)"
proof
  assume "962 \<in> set (code_points q)"
  then obtain c :: char where "of_char c = (962::nat)" by (auto simp: code_points_def)
  moreover have "of_char c < (256::nat)" by simp
  ultimately show False by simp
qed

lemma upattern_of_no_final_sigma: "list_all no_final_sigma (map upattern_of ps)"
proof (induction ps)
  case Nil
  show ?case by simp
next
  case (Cons a ps)
  then show ?case by (cases a) (simp_all add: code_points_no_final_sigma)
qed

lemma unicode_engine_safety_append:
  assumes "list_all no_final_sigma harmful"
    and "unicode_engine_analyze_safety U harmful t = Inr (s, v)"
  shows "\<exists>s' v'. unicode_engine_analyze_safety U harmful (t @ p) = Inr (s', v') \<and> s' \<le> s"
proof -
  from assms(2) obtain r vr where
    l: "unicode_penalty_loop 15 (code_points ''harmful_pattern:'') (unicode_lower U t)
          harmful 100 [] = Inr (r, vr)"
    and s: "s = max 0 r"
    by (auto simp: unicode_engine_analyze_safety_def bindE_def Let_def split: sum.splits)
  have m: "\<And>q. UStr q \<in> set harmful \<Longrightarrow> sublist q (unicode_lower U t) \<Longrightarrow>
      sublist q (unicode_lower U (t @ p))"
  proof -
    fix q assume "UStr q \<in> set harmful" and q: "sublist q (unicode_lower U t)"
    with assms(1) have "no_final_sigma (UStr q)" unfolding list_all_iff by blast
    then have "(962::nat) \<notin> set q" by simp
    then show "sublist q (unicode_lower U (t @ p))" using q by (rule unicode_match_append)
  qed
  from unicode_penalty_loop_mono [OF m _ _ l, of 100 "[]"] obtain r' vr' where
    l': "unicode_penalty_loop 15 (code_points ''harmful_pattern:'') (unicode_lower U (t @ p))
          harmful 100 [] = Inr (r', vr')"
    and le: "r' \<le> r"
    by auto
  have "max 0 r' \<le> max 0 r" using le by (intro max.mono order_refl)
  then show ?thesis
    using l' s by (simp add: unicode_engine_analyze_safety_def bindE_def Let_def)
qed

lemma unicode_service_safety_append:
  "fst (unicode_service_analyze_safety U svc (t @ p) w) \<le>
   fst (unicode_service_analyze_safety U svc t w')"
proof -
  have m: "\<And>q. q \<in> set (svc_harmful_patterns svc) \<Longrightarrow>
      sublist (code_points q) (unicode_lower U t) \<Longrightarrow>
      sublist (code_points q) (unicode_lower U (t @ p))"
    by (rule unicode_match_append [OF code_points_no_final_sigma])
  have le: "fst (unicode_logged_penalty_loop 15 ''Safety: Found harmful pattern ''
            (unicode_lower U (t @ p)) (svc_harmful_patterns svc) 100 w) \<le>
        fst (unicode_logged_penalty_loop 15 ''Safety: Found harmful pattern ''
            (unicode_lower U t) (svc_harmful_patterns svc) 100 w')"
    by (rule unicode_logged_penalty_loop_mono [OF m]) simp_all
  then have "min 100 (fst (unicode_logged_penalty_loop 15 ''Safety: Found harmful pattern ''
            (unicode_lower U (t @ p)) (svc_harmful_patterns svc) 100 w)) \<le>
        min 100 (fst (unicode_logged_penalty_loop 15 ''Safety: Found harmful pattern ''
            (unicode_lower U t) (svc_harmful_patterns svc) 100 w'))"
    by (intro min.mono order_refl)
  then have "max 0 (min 100 (fst (unicode_logged_penalty_loop 15 ''Safety: Found harmful pattern ''
            (unicode_lower U (t @ p)) (svc_harmful_patterns svc) 100 w))) \<le>
        max 0 (min 100 (fst (unicode_logged_penalty_loop 15 ''Safety: Found harmful pattern ''
            (unicode_lower U t) (svc_harmful_patterns svc) 100 w')))"
    by (intro max.mono order_refl)
  then show ?thesis
    by (simp add: unicode_service_analyze_safety_def Let_def split_beta)
qed

text \<open>
  Claim C7, as the code has it. A capital sigma at the end of a text is lowered to the
  final sigma (962); once a cased character is appended it is lowered to the small
  sigma (963) instead, so a phrase that contains the final sigma can be found in the
  lowered text and no longer after the appending. For a catalog none of whose phrases
  contains the final sigma, appending any string \<open>p\<close> to a text \<open>t\<close>, a phrase of
  the catalog in particular, never raises the safety score, whatever the tables of the
  character database are: in the engine, when the score of \<open>t\<close> is computed the score
  of \<open>t @ p\<close> is computed too and is not greater; in the backend service, whose phrases
  are strings of code points below 256, the score of \<open>t @ p\<close> is not greater than that
  of \<open>t\<close>. Every catalog of strings of code points below 256, as the built-in
  catalog of the engine is, meets the restriction.
\<close>

theorem safety_monotone_without_final_sigma:
  "(list_all no_final_sigma harmful \<longrightarrow>
      unicode_engine_analyze_safety U harmful t = Inr (s, v) \<longrightarrow>
      (\<exists>s' v'. unicode_engine_analyze_safety U harmful (t @ p) = Inr (s', v') \<and> s' \<le> s)) \<and>
   fst (unicode_service_analyze_safety U svc (t @ p) w) \<le>
     fst (unicode_service_analyze_safety U svc t w') \<and>
   list_all no_final_sigma (map upattern_of (harmful_patterns eng))"
  using unicode_engine_safety_append [of harmful U t s v p]
    unicode_service_safety_append [of U svc t p w w']
    upattern_of_no_final_sigma [of "harmful_patterns eng"]
  by blast

lemma lower_alpha_sigma:
  "unicode_lower unicode_tables [913, 931] = [945, 962]"
  "unicode_lower unicode_tables [913, 931, 945] = [945, 963, 945]"
  by (simp_all add: unicode_lower_def final_sigma_def unicode_tables_def)

theorem safety_monotone_without_final_sigma_witness:
  "list_all no_final_sigma [UStr [963]] \<and>
   unicode_engine_analyze_safety unicode_tables [UStr [963]] [913, 931] = Inr (100, []) \<and>
   (\<exists>s' v'. unicode_engine_analyze_safety unicode_tables [UStr [963]] ([913, 931] @ [945]) =
        Inr (s', v') \<and> s' \<le> 100)"
proof -
  have a: "list_all no_final_sigma [UStr [963]]" by simp
  have b: "unicode_engine_analyze_safety unicode_tables [UStr [963]] [913, 931] = Inr (100, [])"
    by (simp add: unicode_engine_analyze_safety_def bindE_def Let_def lower_alpha_sigma(1)
          sublist_Cons_right)
  show ?thesis
    using a b safety_monotone_without_final_sigma [of "[UStr [963]]" unicode_tables
        "[913, 931]" 100 "[]" "[945]"]
    by blast
qed

lemma lower_via_fonos:
  "unicode_lower unicode_tables [914, 906, 913, 32, 934, 908, 925, 927, 931] =
     [946, 943, 945, 32, 966, 972, 957, 959, 962]"
  "unicode_lower unicode_tables [914, 906, 913, 32, 934, 908, 925, 927, 931, 946, 943, 945] =
     [946, 943, 945, 32, 966, 972, 957, 959, 963, 946, 943, 945]"
  by (simp_all add: unicode_lower_def final_sigma_def unicode_tables_def)

text \<open>
  The claim as stated, for every phrase of every catalog, fails for a policy catalog
  with a phrase that ends in the final sigma. The catalog holds the two Greek words
  "via" (946, 943, 945) and "fonos" (966, 972, 957, 959, 962); the text is these two
  words in capitals with a space between them, its last character a capital sigma.
  Lowered, the text contains both words and the safety score is 70. With "via"
  appended the capital sigma is lowered to 963, "fonos" is no longer found, and the
  score is 85.
\<close>

theorem safety_rises_with_final_sigma_counterexample:
  "unicode_engine_analyze_safety unicode_tables
     [UStr [946, 943, 945], UStr [966, 972, 957, 959, 962]]
     [914, 906, 913, 32, 934, 908, 925, 927, 931] =
     Inr (70, [code_points ''harmful_pattern:'' @ [946, 943, 945],
               code_points ''harmful_pattern:'' @ [966, 972, 957, 959, 962]]) \<and>
   unicode_engine_analyze_safety unicode_tables
     [UStr [946, 943, 945], UStr [966, 972, 957, 959, 962]]
     ([914, 906, 913, 32, 934, 908, 925, 927, 931] @ [946, 943, 945]) =
     Inr (85, [code_points ''harmful_pattern:'' @ [946, 943, 945]])"
  by (simp add: unicode_engine_analyze_safety_def bindE_def Let_def lower_via_fonos
        sublist_Cons_right)

section \<open>The exemption of short texts\<close>

text \<open>
  Claim C8. A text of fewer than 50 characters passes the transparency check, with
  or without a claim word and with or without a reasoning marker; \<open>validate\<close> reports
  it as \<open>transparency_verified\<close>.
\<close>

theorem short_text_passes_transparency:
  "length t < 50 \<longrightarrow>
     fst (verify_transparency svc t w) \<and> transparency_verified (fst (validate svc t c w'))"
  by (simp add: validate_transparency [of svc t c w' w] verify_transparency_fst)

theorem short_text_passes_transparency_witness:
  "length ''it is good'' < 50 \<and>
   list_ex (\<lambda>pattern. str_in pattern (str_lower ''it is good''))
     (claim_patterns (THTService_init Map.empty)) \<and>
   \<not> list_ex (\<lambda>marker. str_in marker (str_lower ''it is good''))
     (transparent_markers (THTService_init Map.empty)) \<and>
   fst (verify_transparency (THTService_init Map.empty) ''it is good''
          \<lparr>clock = of_nat, hash_seed = 0, log_records = []\<rparr>) \<and>
   transparency_verified (fst (validate (THTService_init Map.empty) ''it is good'' None
          \<lparr>clock = of_nat, hash_seed = 0, log_records = []\<rparr>))"
proof -
  have lo: "str_lower ''it is good'' = ''it is good''"
    by (simp add: str_lower_def lower_char_def)
  have a: "list_ex (\<lambda>pattern. str_in pattern (str_lower ''it is good''))
     (claim_patterns (THTService_init Map.empty))"
    by (simp add: THTService_init_def lo str_in_def sublist_Cons_right)
  have b: "\<not> list_ex (\<lambda>marker. str_in marker (str_lower ''it is good''))
     (transparent_markers (THTService_init Map.empty))"
    by (simp add: THTService_init_def lo str_in_def sublist_Cons_right)
  show ?thesis
    using a b short_text_passes_transparency [where t = "''it is good''"
        and svc = "THTService_init Map.empty" and c = None
        and w = "\<lparr>clock = of_nat, hash_seed = 0, log_records = []\<rparr>"
        and w' = "\<lparr>clock = of_nat, hash_seed = 0, log_records = []\<rparr>"]
    by simp
qed

section \<open>The personalization score\<close>

lemma determine_action_ignores_personalization:
  "determine_action eng s p i e l v = determine_action eng s p' i e l v"
  by (simp add: determine_action_def)

text \<open>
  Claim C9. On a text and an optional context dictionary, the personalization analyzer
  of the engine returns a score in \<open>[80, 100]\<close>, and so does the one of the backend
  service: nothing lowers the baseline of 80. The default personalization threshold is
  70, and \<open>_determine_action\<close> does not read its \<open>personalization\<close> argument at
  all, so this dimension never decides the action.
\<close>

theorem personalization_at_least_baseline:
  "(\<exists>s. engine_analyze_personalization (PStr t) (py_context c) = Inr s \<and> 80 \<le> s \<and> s \<le> 100) \<and>
   80 \<le> service_analyze_personalization svc t c \<and>
   service_analyze_personalization svc t c \<le> 100 \<and>
   personalization_threshold default_policy = PNum 70 \<and>
   determine_action eng s1 p i e l v = determine_action eng s1 p' i e l v"
proof -
  obtain s where s: "engine_analyze_personalization (PStr t) (py_context c) = Inr s"
    using engine_analyze_personalization_PStr by blast
  have "80 \<le> s \<and> s \<le> 100"
    using engine_personalization_range [OF s] by blast
  with s have a: "\<exists>s. engine_analyze_personalization (PStr t) (py_context c) = Inr s \<and>
      80 \<le> s \<and> s \<le> 100"
    by blast
  have b: "80 \<le> service_analyze_personalization svc t c"
    and c: "service_analyze_personalization svc t c \<le> 100"
    using service_personalization_range [of svc t c] by blast+
  have d: "personalization_threshold default_policy = PNum 70"
    by (simp add: default_policy_def)
  show ?thesis
    by (intro conjI a b c d determine_action_ignores_personalization)
qed

end
